theory Spec2Isabelle
  imports Main
begin

section \<open>The deduplication cache of viewed statuses\<close>

text \<open>
  \<^verbatim>\<open>index.js\<close> keeps the ids of the status broadcasts it has already viewed in the
  module-level \<^verbatim>\<open>viewedStatus = new Set()\<close>. A JavaScript \<^verbatim>\<open>Set\<close> iterates in insertion
  order and holds every value once, so it is modelled as the list of its values, oldest
  first. The three operations the program uses are \<^verbatim>\<open>has\<close>, \<^verbatim>\<open>add\<close> and \<^verbatim>\<open>delete\<close>.
\<close>

type_synonym status_set = "string list"

definition set_has :: "status_set \<Rightarrow> string \<Rightarrow> bool" where
  "set_has vs x = (x \<in> set vs)"

definition set_add :: "string \<Rightarrow> status_set \<Rightarrow> status_set" where
  "set_add x vs = (if x \<in> set vs then vs else vs @ [x])"

definition set_delete :: "string \<Rightarrow> status_set \<Rightarrow> status_set" where
  "set_delete x vs = removeAll x vs"

text \<open>
  The constants of lines 15 and 17.
\<close>

definition MAX_VIEWED_STATUS_SIZE :: nat where
  "MAX_VIEWED_STATUS_SIZE = 1000"

definition STATUS_CLEANUP_INTERVAL :: nat where
  "STATUS_CLEANUP_INTERVAL = 3600000"

text \<open>
  \<^verbatim>\<open>cleanupViewedStatus\<close> (lines 49--57). The loop
  \<^verbatim>\<open>for (let i = 0; i < toDelete; i++) viewedStatus.delete(iterator.next().value)\<close>
  walks one iterator over the set: each \<^verbatim>\<open>next()\<close> yields the oldest value still in the
  set, which is deleted at once, and the iterator then stands at the value after it. Once
  the iterator is exhausted \<^verbatim>\<open>next().value\<close> is \<^verbatim>\<open>undefined\<close> and the delete changes
  nothing. The first argument counts the iterations still to run.
\<close>

fun cleanup_loop :: "nat \<Rightarrow> status_set \<Rightarrow> status_set" where
  "cleanup_loop 0 vs = vs"
| "cleanup_loop (Suc n) [] = []"
| "cleanup_loop (Suc n) (x # vs) = cleanup_loop n vs"

text \<open>
  The capacity is the first argument, so that the function can be read at the program's
  \<^const>\<open>MAX_VIEWED_STATUS_SIZE\<close> and at the small capacities of the examples.
\<close>

definition cleanupViewedStatus :: "nat \<Rightarrow> status_set \<Rightarrow> status_set" where
  "cleanupViewedStatus cap vs =
     (if length vs > cap then cleanup_loop (length vs - cap) vs else vs)"

text \<open>
  Every first view of a status arms \<^verbatim>\<open>setTimeout(() => viewedStatus.delete(statusId),
  STATUS_CLEANUP_INTERVAL)\<close> (line 106). The timers that have not fired yet are part of the
  state: each is the time at which it is due and the id its callback deletes. Nothing in
  the program cancels such a timer.
\<close>

record dedup =
  viewedStatus :: status_set
  expiry :: "(nat \<times> string) list"

definition dedup_init :: dedup where
  "dedup_init = \<lparr>viewedStatus = [], expiry = []\<rparr>"

text \<open>
  Lines 99--106 of \<^verbatim>\<open>handleStatusView\<close>: the gate in front of the side effects. The
  result \<^term>\<open>False\<close> is the early \<^verbatim>\<open>return\<close> of line 101 (the id is in the set and
  nothing happens); \<^term>\<open>True\<close> means that the id was added, the set was trimmed to the
  capacity and the deletion timer was armed, after which the handler goes on to mark the
  status as read. The specification calls this contract \<^verbatim>\<open>observeOnce\<close>. The arguments
  are the capacity, the delay of the timer, the current time and the id.
\<close>

definition observeOnce :: "nat \<Rightarrow> nat \<Rightarrow> nat \<Rightarrow> string \<Rightarrow> dedup \<Rightarrow> bool \<times> dedup" where
  "observeOnce cap ttl now sid c =
     (if set_has (viewedStatus c) sid then (False, c)
      else (True, \<lparr>viewedStatus = cleanupViewedStatus cap (set_add sid (viewedStatus c)),
                   expiry = expiry c @ [(now + ttl, sid)]\<rparr>))"

text \<open>
  The event loop runs the callback of every timer that is due. \<^term>\<open>advance now c\<close> is
  the cache once the clock has reached \<^term>\<open>now\<close>: the due timers have fired in the order
  in which they were armed, each deleting its id, and are no longer pending.
\<close>

definition timer_due :: "nat \<Rightarrow> nat \<times> string \<Rightarrow> bool" where
  "timer_due now tm = (fst tm \<le> now)"

definition advance :: "nat \<Rightarrow> dedup \<Rightarrow> dedup" where
  "advance now c =
     \<lparr>viewedStatus = fold (\<lambda>tm vs. set_delete (snd tm) vs)
                        (filter (timer_due now) (expiry c)) (viewedStatus c),
      expiry = filter (\<lambda>tm. \<not> timer_due now tm) (expiry c)\<rparr>"

text \<open>
  A status with id \<^term>\<open>sid\<close> that arrives at time \<^term>\<open>now\<close>: the timers due by then
  have fired before the handler runs.
\<close>

definition observe_at :: "nat \<Rightarrow> nat \<Rightarrow> nat \<times> string \<Rightarrow> dedup \<Rightarrow> bool \<times> dedup" where
  "observe_at cap ttl ev c = observeOnce cap ttl (fst ev) (snd ev) (advance (fst ev) c)"

text \<open>
  A sequence of arrivals, each with its time; the results of the gate are collected in
  order.
\<close>

fun observe_all :: "nat \<Rightarrow> nat \<Rightarrow> (nat \<times> string) list \<Rightarrow> dedup \<Rightarrow> bool list \<times> dedup" where
  "observe_all cap ttl [] c = ([], c)"
| "observe_all cap ttl (ev # evs) c =
     (case observe_at cap ttl ev c of
        (b, c') \<Rightarrow> (case observe_all cap ttl evs c' of (bs, c'') \<Rightarrow> (b # bs, c'')))"

section \<open>Configuration\<close>

text \<open>
  \<^verbatim>\<open>config = require("./settings")\<close>: the settings module is not part of the sources; the
  program reads the keys below. A key that is absent reads as \<^verbatim>\<open>undefined\<close>, here
  \<^term>\<open>None\<close>. The program tests most keys for truthiness only: an absent key, the empty
  string and the number 0 are falsy.
\<close>

record config =
  botName :: "string option"
  ownerNumber :: "string option"
  reconnectDelay :: "nat option"
  pairingDelay :: "nat option"
  autoViewStatus :: bool
  autoReactStatus :: bool
  statusReactionEmoji :: "string option"
  antiDelete :: bool
  antiCall :: bool

definition truthy_string :: "string option \<Rightarrow> bool" where
  "truthy_string v = (case v of None \<Rightarrow> False | Some s \<Rightarrow> s \<noteq> [])"

definition truthy_number :: "nat option \<Rightarrow> bool" where
  "truthy_number v = (case v of None \<Rightarrow> False | Some n \<Rightarrow> n \<noteq> 0)"

text \<open>\<^verbatim>\<open>value || fallback\<close> on a number.\<close>

definition or_default :: "nat option \<Rightarrow> nat \<Rightarrow> nat" where
  "or_default v d = (if truthy_number v then the v else d)"

datatype config_key = BotName | OwnerNumber | ReconnectDelay

fun config_truthy :: "config \<Rightarrow> config_key \<Rightarrow> bool" where
  "config_truthy cfg BotName = truthy_string (botName cfg)"
| "config_truthy cfg OwnerNumber = truthy_string (ownerNumber cfg)"
| "config_truthy cfg ReconnectDelay = truthy_number (reconnectDelay cfg)"

definition is_digit :: "char \<Rightarrow> bool" where
  "is_digit ch = (ch \<in> set ''0123456789'')"

text \<open>The regular expression \<^verbatim>\<open>/^\d{10,15}$/\<close> of line 44.\<close>

definition digits_10_15 :: "string \<Rightarrow> bool" where
  "digits_10_15 s = (list_all is_digit s \<and> 10 \<le> length s \<and> length s \<le> 15)"

text \<open>
  What the program throws, each a JavaScript \<^verbatim>\<open>Error\<close> with a message: the two errors of
  \<^verbatim>\<open>validateConfig\<close>, the two of \<^verbatim>\<open>getPairingCode\<close>, and an error thrown by the
  transport library, with its message.
\<close>

datatype error =
    MissingConfig "config_key list"
  | InvalidOwnerNumber
  | InvalidPhoneNumber
  | MaxPairingAttempts
  | TransportError string

text \<open>\<^verbatim>\<open>validateConfig\<close> (lines 36--47).\<close>

definition validateConfig :: "config \<Rightarrow> error + unit" where
  "validateConfig cfg =
     (let required = [BotName, OwnerNumber, ReconnectDelay];
          missing = filter (\<lambda>key. \<not> config_truthy cfg key) required
      in if length missing > 0 then Inl (MissingConfig missing)
         else if truthy_string (ownerNumber cfg) \<and> \<not> digits_10_15 (the (ownerNumber cfg))
           then Inl InvalidOwnerNumber
         else Inr ())"

text \<open>
  \<^verbatim>\<open>config.reconnectDelay || 5000\<close> (lines 248 and 312) and the constant of line 16.
\<close>

definition reconnect_delay :: "config \<Rightarrow> nat" where
  "reconnect_delay cfg = or_default (reconnectDelay cfg) 5000"

definition PAIRING_STABILIZATION_DELAY :: "config \<Rightarrow> nat" where
  "PAIRING_STABILIZATION_DELAY cfg = or_default (pairingDelay cfg) 10000"

definition MAX_RETRY_ATTEMPTS :: nat where
  "MAX_RETRY_ATTEMPTS = 5"

section \<open>Pairing\<close>

text \<open>
  What the program does to the outside world, in the order in which it does it: lines
  written to the console (without the emoji and colour codes of the source), calls of
  the transport library on a socket, timers, and the end of the process. Sockets and
  timer handles are numbered.
\<close>

datatype task = Heartbeat nat | Resubscribe nat

record msg_key =
  key_id :: string
  remoteJid :: "string option"
  participant :: "string option"

datatype effect =
    Log string
  | Wait nat
  | Question
  | LogRetrying nat nat
  | RequestPairingCode nat string
  | SendPresenceUpdate nat
  | SubscribeStatus nat
  | ReadMessages nat msg_key
  | SendReaction nat string msg_key string
  | SendAlert nat string string
  | SetInterval nat nat task
  | ClearInterval nat
  | SetTimeoutStartBot nat
  | Exit nat

text \<open>\<^verbatim>\<open>formatPhoneNumber\<close> (lines 28--30): \<^verbatim>\<open>phone.replace(/[^0-9]/g, '')\<close>.\<close>

definition formatPhoneNumber :: "string \<Rightarrow> string" where
  "formatPhoneNumber phone = filter is_digit phone"

text \<open>
  One round of \<^verbatim>\<open>getPairingCode\<close> depends on two things from outside: the line the user
  types at the prompt, and what \<^verbatim>\<open>sock.requestPairingCode\<close> does with the number, which
  returns a code or throws.
\<close>

record attempt =
  typed :: string
  reply :: "string + string"

text \<open>
  \<^verbatim>\<open>getPairingCode\<close> (lines 59--96). The arguments are the stabilization delay, the
  socket, the rounds the outside world has in store (by number), the number of the
  current round and the module-level \<^verbatim>\<open>retryAttempts\<close>; the result is what the call did,
  the new value of \<^verbatim>\<open>retryAttempts\<close>, and whether it returned or threw. The function calls
  itself from its \<^verbatim>\<open>catch\<close> block; the readline interface it opens and closes is left
  out. The error of the failed round is logged with its message.
\<close>

definition attempt_result :: "attempt \<Rightarrow> error + string" where
  "attempt_result a =
     (let phoneNumber = formatPhoneNumber (typed a)
      in if phoneNumber = [] \<or> length phoneNumber < 10 \<or> length phoneNumber > 15
           then Inl InvalidPhoneNumber
         else (case reply a of Inl m \<Rightarrow> Inl (TransportError m) | Inr code \<Rightarrow> Inr code))"

definition attempt_effects :: "nat \<Rightarrow> nat \<Rightarrow> attempt \<Rightarrow> effect list" where
  "attempt_effects delay sock a =
     (let phoneNumber = formatPhoneNumber (typed a)
      in [Log ''Stabilizing connection... please wait.'', Wait delay, Question] @
         (if phoneNumber = [] \<or> length phoneNumber < 10 \<or> length phoneNumber > 15 then []
          else [RequestPairingCode sock phoneNumber]))"

fun key_name :: "config_key \<Rightarrow> string" where
  "key_name BotName = ''botName''"
| "key_name OwnerNumber = ''ownerNumber''"
| "key_name ReconnectDelay = ''reconnectDelay''"

text \<open>\<^verbatim>\<open>missing.join(', ')\<close>.\<close>

fun join :: "string list \<Rightarrow> string" where
  "join [] = []"
| "join [x] = x"
| "join (x # y # ys) = x @ '', '' @ join (y # ys)"

fun error_message :: "error \<Rightarrow> string" where
  "error_message (MissingConfig missing) = ''Missing required config: '' @ join (map key_name missing)"
| "error_message InvalidOwnerNumber = ''Invalid owner number format''"
| "error_message InvalidPhoneNumber = ''Invalid phone number. Must be 10-15 digits.''"
| "error_message MaxPairingAttempts = ''Max pairing attempts reached. Restarting bot...''"
| "error_message (TransportError m) = m"

function getPairingCode ::
  "nat \<Rightarrow> nat \<Rightarrow> (nat \<Rightarrow> attempt) \<Rightarrow> nat \<Rightarrow> nat \<Rightarrow> effect list \<times> nat \<times> (error + unit)" where
  "getPairingCode delay sock rounds i retryAttempts =
     (case attempt_result (rounds i) of
        Inr code \<Rightarrow>
          (attempt_effects delay sock (rounds i) @ [Log (''PAIR USING THIS CODE: '' @ code)], 0, Inr ())
      | Inl err \<Rightarrow>
          (if retryAttempts < MAX_RETRY_ATTEMPTS then
             (case getPairingCode delay sock rounds (i + 1) (retryAttempts + 1) of
                (effs, n, res) \<Rightarrow>
                  (attempt_effects delay sock (rounds i) @
                   [Log (''Pairing error: '' @ error_message err), LogRetrying (retryAttempts + 1) MAX_RETRY_ATTEMPTS, Wait 3000] @ effs,
                   n, res))
           else
             (attempt_effects delay sock (rounds i) @ [Log (''Pairing error: '' @ error_message err)],
              retryAttempts, Inl MaxPairingAttempts)))"
  by pat_completeness auto

termination
  by (relation "measure (\<lambda>(delay, sock, rounds, i, retryAttempts). MAX_RETRY_ATTEMPTS - retryAttempts)")
     auto

declare getPairingCode.simps [simp del]

text \<open>The rounds of a call: how often the user was asked for the number.\<close>

definition rounds_run :: "effect list \<Rightarrow> nat" where
  "rounds_run effs = length (filter (\<lambda>e. e = Question) effs)"

section \<open>Connection supervision\<close>

text \<open>The constants of lines 19 and 20.\<close>

definition PRESENCE_UPDATE_INTERVAL :: nat where
  "PRESENCE_UPDATE_INTERVAL = 60000"

definition STATUS_SYNC_INTERVAL :: nat where
  "STATUS_SYNC_INTERVAL = 300000"

text \<open>
  A \<^verbatim>\<open>connection.update\<close> event as \<^verbatim>\<open>handleConnectionUpdate\<close> reads it: the field
  \<^verbatim>\<open>connection\<close>, which may be absent, and \<^verbatim>\<open>lastDisconnect?.error\<close>, which is absent, a
  \<^verbatim>\<open>Boom\<close> error with its \<^verbatim>\<open>output.statusCode\<close>, or an error of another class.
\<close>

datatype connection = Close | Open | Connecting

datatype disconnect_error = Boom nat | OtherError

record update =
  connection :: "connection option"
  lastError :: "disconnect_error option"

text \<open>
  Modelled from the spec: \<^verbatim>\<open>DisconnectReason.loggedOut\<close>, a constant of the transport
  library, which is not among the sources; the specification calls it the logged-out
  status code. The library's value is 401. No proof below looks at the value.
\<close>

definition loggedOut :: nat where
  "loggedOut = 401"

text \<open>
  The state of the process: the module-level variables \<^verbatim>\<open>retryAttempts\<close>,
  \<^verbatim>\<open>presenceInterval\<close> and \<^verbatim>\<open>statusSyncInterval\<close> (lines 24--26; a timer handle or
  \<^verbatim>\<open>null\<close>), and what the runtime holds for the program:
  \<^item> \<^verbatim>\<open>intervals\<close>: the interval timers that are live, each with handle, period and task;
  \<^item> \<^verbatim>\<open>restarts\<close>: the pending \<^verbatim>\<open>setTimeout(() => startBot(), delay)\<close> timers, oldest
    first, each with its delay;
  \<^item> \<^verbatim>\<open>built\<close>: the sockets \<^verbatim>\<open>makeWASocket\<close> has built (line 280), oldest first; the
    program never ends a socket itself;
  \<^item> \<^verbatim>\<open>sockets\<close>: the sockets on which \<^verbatim>\<open>startBot\<close> has registered its listeners;
  \<^item> \<^verbatim>\<open>ended\<close>: the sockets that have delivered a close event;
  \<^item> \<^verbatim>\<open>suspended\<close>: the sockets whose open handler is suspended at the \<^verbatim>\<open>await\<close> of
    line 260;
  \<^item> \<^verbatim>\<open>fresh\<close>: the next unused number for a socket or timer handle;
  \<^item> \<^verbatim>\<open>exited\<close>: the status of \<^verbatim>\<open>process.exit\<close>, once called;
  \<^item> \<^verbatim>\<open>trace\<close>: what the program has done so far.
\<close>

record world =
  retryAttempts :: nat
  presenceInterval :: "nat option"
  statusSyncInterval :: "nat option"
  intervals :: "(nat \<times> nat \<times> task) list"
  restarts :: "nat list"
  built :: "nat list"
  sockets :: "nat list"
  ended :: "nat list"
  suspended :: "nat list"
  fresh :: nat
  exited :: "nat option"
  trace :: "effect list"

definition world_init :: world where
  "world_init = \<lparr>retryAttempts = 0, presenceInterval = None, statusSyncInterval = None,
     intervals = [], restarts = [], built = [], sockets = [], ended = [], suspended = [], fresh = 0,
     exited = None, trace = []\<rparr>"

definition emit :: "effect list \<Rightarrow> world \<Rightarrow> world" where
  "emit effs w = w\<lparr>trace := trace w @ effs\<rparr>"

text \<open>
  \<^verbatim>\<open>if (handle) clearInterval(handle)\<close>: a timer handle is an object and so truthy; the
  variable keeps the handle afterwards.
\<close>

definition clearInterval :: "nat \<Rightarrow> world \<Rightarrow> world" where
  "clearInterval h w =
     emit [ClearInterval h] (w\<lparr>intervals := filter (\<lambda>iv. fst iv \<noteq> h) (intervals w)\<rparr>)"

definition clear_if_set :: "nat option \<Rightarrow> world \<Rightarrow> world" where
  "clear_if_set v w = (case v of None \<Rightarrow> w | Some h \<Rightarrow> clearInterval h w)"

definition setInterval :: "nat \<Rightarrow> task \<Rightarrow> world \<Rightarrow> nat \<times> world" where
  "setInterval period t w =
     (fresh w, emit [SetInterval (fresh w) period t]
        (w\<lparr>intervals := intervals w @ [(fresh w, period, t)], fresh := fresh w + 1\<rparr>))"

text \<open>
  \<^verbatim>\<open>updatePresence\<close> (lines 210--216) swallows a failure of the call, so the outcome of
  the call changes nothing.
\<close>

definition updatePresence :: "nat \<Rightarrow> world \<Rightarrow> world" where
  "updatePresence sock w = emit [SendPresenceUpdate sock] w"

text \<open>\<^verbatim>\<open>startPresenceUpdates\<close> (lines 197--208).\<close>

definition startPresenceUpdates :: "nat \<Rightarrow> world \<Rightarrow> world" where
  "startPresenceUpdates sock w =
     (let w1 = clear_if_set (presenceInterval w) w;
          w2 = updatePresence sock w1;
          (h, w3) = setInterval PRESENCE_UPDATE_INTERVAL (Heartbeat sock) w2
      in w3\<lparr>presenceInterval := Some h\<rparr>)"

text \<open>\<^verbatim>\<open>startStatusSync\<close> (lines 218--233).\<close>

definition startStatusSync :: "config \<Rightarrow> nat \<Rightarrow> world \<Rightarrow> world" where
  "startStatusSync cfg sock w =
     (if \<not> autoViewStatus cfg then w
      else let w1 = clear_if_set (statusSyncInterval w) w;
               (h, w2) = setInterval STATUS_SYNC_INTERVAL (Resubscribe sock) w1
           in w2\<lparr>statusSyncInterval := Some h\<rparr>)"

text \<open>
  The callbacks of the two interval timers (lines 205--207 and 225--232); the flag says
  whether the call of the transport succeeded.
\<close>

fun run_task :: "task \<Rightarrow> bool \<Rightarrow> world \<Rightarrow> world" where
  "run_task (Heartbeat sock) ok w = updatePresence sock w"
| "run_task (Resubscribe sock) ok w =
     emit (SubscribeStatus sock # (if ok then [Log ''Status subscription refreshed''] else [])) w"

text \<open>
  \<^verbatim>\<open>initializeStatusViewing\<close> (lines 185--195) in two halves: up to the \<^verbatim>\<open>await\<close> of the
  call, and from the moment the call has settled, successfully or not.
\<close>

definition initializeStatusViewing_call :: "config \<Rightarrow> nat \<Rightarrow> world \<Rightarrow> world" where
  "initializeStatusViewing_call cfg sock w =
     (if \<not> autoViewStatus cfg then w else emit [SubscribeStatus sock] w)"

definition initializeStatusViewing_settled :: "config \<Rightarrow> bool \<Rightarrow> world \<Rightarrow> world" where
  "initializeStatusViewing_settled cfg ok w =
     (if \<not> autoViewStatus cfg then w
      else if ok then emit [Log ''Status viewing initialized''] w
      else emit [Log ''Status initialization failed (normal on first run)''] w)"

text \<open>
  \<^verbatim>\<open>handleConnectionUpdate\<close> (lines 235--268). The close branch runs in one piece. The
  open branch runs up to \<^verbatim>\<open>await initializeStatusViewing(sock)\<close> (line 260) and is
  suspended there: other events may be handled before it resumes. \<^verbatim>\<open>handleConnectionUpdate\<close>
  below is the handler up to that point, \<^verbatim>\<open>handleConnectionUpdate_resume\<close> the rest of the
  open branch (lines 260--266).
\<close>

definition shouldReconnect :: "update \<Rightarrow> bool" where
  "shouldReconnect u =
     (case lastError u of Some (Boom statusCode) \<Rightarrow> statusCode \<noteq> loggedOut | _ \<Rightarrow> True)"

definition handleConnectionUpdate :: "config \<Rightarrow> nat \<Rightarrow> update \<Rightarrow> world \<Rightarrow> world" where
  "handleConnectionUpdate cfg sock u w =
     (case connection u of
        Some Close \<Rightarrow>
          (let w1 = clear_if_set (presenceInterval w) w;
               w2 = clear_if_set (statusSyncInterval w1) w1
           in if shouldReconnect u then
                emit [Log ''Connection lost. Reconnecting...'', SetTimeoutStartBot (reconnect_delay cfg)]
                  (w2\<lparr>restarts := restarts w2 @ [reconnect_delay cfg]\<rparr>)
              else
                emit [Log ''Logged out. Please delete auth_session and restart.'', Exit 0]
                  (w2\<lparr>exited := Some 0\<rparr>))
      | Some Open \<Rightarrow>
          (let w1 = emit [Log ((case botName cfg of None \<Rightarrow> ''undefined'' | Some n \<Rightarrow> n) @ '' is ONLINE!'')] w;
               w2 = w1\<lparr>retryAttempts := 0\<rparr>;
               w3 = initializeStatusViewing_call cfg sock w2
           in w3\<lparr>suspended := suspended w3 @ [sock]\<rparr>)
      | _ \<Rightarrow> w)"

definition handleConnectionUpdate_resume :: "config \<Rightarrow> nat \<Rightarrow> bool \<Rightarrow> world \<Rightarrow> world" where
  "handleConnectionUpdate_resume cfg sock ok w =
     startStatusSync cfg sock
       (startPresenceUpdates sock (initializeStatusViewing_settled cfg ok w))"

text \<open>
  What one run of \<^verbatim>\<open>startBot\<close> meets outside the program: whether one of the library
  calls of lines 276--294 throws (and with which message), whether the stored
  credentials are registered, and the rounds of the pairing dialogue.
\<close>

record boot_env =
  libraryError :: "string option"
  registered :: bool
  pairingRounds :: "nat \<Rightarrow> attempt"

text \<open>
  \<^verbatim>\<open>startBot\<close> (lines 270--316). \<^verbatim>\<open>boot_failed\<close> is the \<^verbatim>\<open>catch\<close> block, which catches
  whatever the \<^verbatim>\<open>try\<close> block throws, the error of \<^verbatim>\<open>validateConfig\<close> included. The socket
  is built at line 280, before the pairing, and gets its listeners at lines 302--305,
  after it: a run that gives up the pairing leaves a socket without listeners, which
  nothing ends. The run is taken in one piece, although it waits at lines 276, 277 and
  298: as long as no socket delivers two close events, it starts when no restart is
  pending and no socket with listeners is open, and the events that can arrive then
  change neither (lemma \<^verbatim>\<open>boot_window_quiet\<close>).
\<close>

definition boot_failed :: "config \<Rightarrow> error \<Rightarrow> world \<Rightarrow> world" where
  "boot_failed cfg err w =
     emit [Log (''Fatal error: '' @ error_message err), Log ''Restarting...'',
           SetTimeoutStartBot (reconnect_delay cfg)]
       (w\<lparr>restarts := restarts w @ [reconnect_delay cfg]\<rparr>)"

definition register_listeners :: "nat \<Rightarrow> world \<Rightarrow> world" where
  "register_listeners sock w =
     emit [Log ''Bot initialized successfully''] (w\<lparr>sockets := sockets w @ [sock]\<rparr>)"

definition startBot :: "config \<Rightarrow> boot_env \<Rightarrow> world \<Rightarrow> world" where
  "startBot cfg env w =
     (case validateConfig cfg of
        Inl err \<Rightarrow> boot_failed cfg err w
      | Inr _ \<Rightarrow>
          (case libraryError env of
             Some m \<Rightarrow> boot_failed cfg (TransportError m) w
           | None \<Rightarrow>
               (let sock = fresh w; w1 = w\<lparr>fresh := fresh w + 1, built := built w @ [fresh w]\<rparr>
                in if \<not> registered env then
                     (case getPairingCode (PAIRING_STABILIZATION_DELAY cfg) sock (pairingRounds env) 0
                             (retryAttempts w1) of
                        (effs, n, Inl err) \<Rightarrow> boot_failed cfg err (emit effs (w1\<lparr>retryAttempts := n\<rparr>))
                      | (effs, n, Inr _) \<Rightarrow> register_listeners sock (emit effs (w1\<lparr>retryAttempts := n\<rparr>)))
                   else register_listeners sock w1)))"

text \<open>
  The events the process reacts to: a \<^verbatim>\<open>connection.update\<close> delivered by a socket; the
  settling of the call an open handler is waiting for; an interval timer coming due (with
  the outcome of the call its task makes); the oldest pending restart timer coming due
  (with what the run of \<^verbatim>\<open>startBot\<close> will meet). The runtime, not the program, decides
  whether an event has a receiver: an update reaches the handler only from a socket with
  listeners (a socket that was built and has none still closes, unseen by the program), a
  timer fires only while it is live, and nothing runs after \<^verbatim>\<open>process.exit\<close>.
\<close>

datatype event =
    ConnectionUpdate nat update
  | InitDone nat bool
  | IntervalFired nat bool
  | RestartFired boot_env

definition note_ended :: "nat \<Rightarrow> update \<Rightarrow> world \<Rightarrow> world" where
  "note_ended sock u w = (if connection u = Some Close then w\<lparr>ended := ended w @ [sock]\<rparr> else w)"

fun deliver :: "config \<Rightarrow> event \<Rightarrow> world \<Rightarrow> world" where
  "deliver cfg (ConnectionUpdate sock u) w =
     (if sock \<in> set (sockets w) then handleConnectionUpdate cfg sock u (note_ended sock u w)
      else if sock \<in> set (built w) then note_ended sock u w
      else w)"
| "deliver cfg (InitDone sock ok) w =
     (if sock \<in> set (suspended w)
      then handleConnectionUpdate_resume cfg sock ok (w\<lparr>suspended := remove1 sock (suspended w)\<rparr>)
      else w)"
| "deliver cfg (IntervalFired h ok) w =
     (case find (\<lambda>iv. fst iv = h) (intervals w) of
        None \<Rightarrow> w
      | Some iv \<Rightarrow> run_task (snd (snd iv)) ok w)"
| "deliver cfg (RestartFired env) w =
     (case restarts w of [] \<Rightarrow> w | d # ds \<Rightarrow> startBot cfg env (w\<lparr>restarts := ds\<rparr>))"

definition step :: "config \<Rightarrow> event \<Rightarrow> world \<Rightarrow> world" where
  "step cfg ev w = (if exited w \<noteq> None then w else deliver cfg ev w)"

text \<open>A sequence of events, in the order in which the event loop takes them.\<close>

fun run :: "config \<Rightarrow> event list \<Rightarrow> world \<Rightarrow> world" where
  "run cfg [] w = w"
| "run cfg (ev # evs) w = run cfg evs (step cfg ev w)"

text \<open>
  The session handles that are active: the sockets that have been built and have not
  delivered a close event. \<^verbatim>\<open>listening\<close> are the sockets with the listeners of \<^verbatim>\<open>startBot\<close>
  that have not delivered a close event; \<^verbatim>\<open>abandoned\<close> are the sockets that were built and
  never got listeners, because \<^verbatim>\<open>startBot\<close> threw after line 280.
\<close>

definition active :: "world \<Rightarrow> nat list" where
  "active w = filter (\<lambda>s. s \<notin> set (ended w)) (built w)"

definition listening :: "world \<Rightarrow> nat list" where
  "listening w = filter (\<lambda>s. s \<notin> set (ended w)) (sockets w)"

definition abandoned :: "world \<Rightarrow> nat list" where
  "abandoned w = filter (\<lambda>s. s \<notin> set (sockets w)) (built w)"

text \<open>The surroundings of the runs of \<^verbatim>\<open>startBot\<close> that a sequence of events starts.\<close>

fun boots :: "event list \<Rightarrow> boot_env list" where
  "boots [] = []"
| "boots (RestartFired env # evs) = env # boots evs"
| "boots (ev # evs) = boots evs"

text \<open>The sockets that deliver a close event in a sequence of events, in order.\<close>

fun closes :: "event list \<Rightarrow> nat list" where
  "closes [] = []"
| "closes (ConnectionUpdate sock u # evs) =
     (if connection u = Some Close then sock # closes evs else closes evs)"
| "closes (ev # evs) = closes evs"

fun is_open :: "event \<Rightarrow> bool" where
  "is_open (ConnectionUpdate sock u) = (connection u = Some Open)"
| "is_open ev = False"

section \<open>Incoming messages\<close>

text \<open>
  A message as the handlers read it: its key, and its content, which may be absent; of
  the content only \<^verbatim>\<open>protocolMessage\<close> matters, with its \<^verbatim>\<open>type\<close> (0 is a revocation)
  and the key of the message it is about.
\<close>

record protocol_message =
  pm_type :: "nat option"
  pm_key :: "msg_key option"

record content =
  protocolMessage :: "protocol_message option"

record msg =
  key :: msg_key
  message :: "content option"

text \<open>\<^verbatim>\<open>extractUsername\<close> (lines 32--34): \<^verbatim>\<open>jid?.split('@')[0] || 'Unknown'\<close>.\<close>

definition extractUsername :: "string option \<Rightarrow> string" where
  "extractUsername jid =
     (case jid of
        None \<Rightarrow> ''Unknown''
      | Some j \<Rightarrow> (let name = takeWhile (\<lambda>ch. ch \<noteq> CHR ''@'') j
                  in if name = [] then ''Unknown'' else name))"

text \<open>
  \<^verbatim>\<open>handleStatusView\<close> (lines 98--123). The handlers below take the socket, the time and
  \<^term>\<open>ok\<close>, which says of each call of the transport whether it succeeds; they return what
  they did and the new cache. A call that throws is caught by the handler and logged.
\<close>

definition handleStatusView ::
  "config \<Rightarrow> (effect \<Rightarrow> bool) \<Rightarrow> nat \<Rightarrow> nat \<Rightarrow> msg \<Rightarrow> dedup \<Rightarrow> effect list \<times> dedup" where
  "handleStatusView cfg ok sock now m c =
     (case observeOnce MAX_VIEWED_STATUS_SIZE STATUS_CLEANUP_INTERVAL now (key_id (key m)) c of
        (False, c') \<Rightarrow> ([], c')
      | (True, c') \<Rightarrow>
          (if \<not> truthy_string (participant (key m)) then ([], c')
           else
             (let sender = the (participant (key m));
                  read = ReadMessages sock (key m);
                  viewed = [read, Log (''Viewed Status: '' @ extractUsername (Some sender))];
                  react = SendReaction sock (the (statusReactionEmoji cfg)) (key m) sender
              in if \<not> ok read then ([read, Log ''Status view error''], c')
                 else if autoReactStatus cfg \<and> truthy_string (statusReactionEmoji cfg) then
                   (if ok react then (viewed @ [react], c')
                    else (viewed @ [react, Log ''Status view error''], c'))
                 else (viewed, c'))))"

text \<open>
  \<^verbatim>\<open>handleAntiDelete\<close> (lines 125--150). Reading \<^verbatim>\<open>remoteJid\<close> of an absent key throws,
  which the handler catches like a failed call. The time of day in the text of the alert
  is left out.
\<close>

definition handleAntiDelete :: "config \<Rightarrow> (effect \<Rightarrow> bool) \<Rightarrow> nat \<Rightarrow> msg \<Rightarrow> effect list" where
  "handleAntiDelete cfg ok sock m =
     (case message m of
        None \<Rightarrow> []
      | Some body \<Rightarrow>
          (case protocolMessage body of
             None \<Rightarrow> []
           | Some pm \<Rightarrow>
               (if pm_type pm \<noteq> Some 0 then []
                else
                  (case pm_key pm of
                     None \<Rightarrow> [Log ''Anti-delete error'']
                   | Some deletedKey \<Rightarrow>
                       (if \<not> truthy_string (remoteJid deletedKey) \<or>
                           remoteJid deletedKey = Some ''status@broadcast'' then []
                        else
                          (let deletedJid = the (remoteJid deletedKey);
                               ownerJid = (case ownerNumber cfg of None \<Rightarrow> ''undefined'' | Some n \<Rightarrow> n)
                                            @ ''@s.whatsapp.net'';
                               alert = SendAlert sock ownerJid deletedJid
                           in if ok alert
                              then [alert, Log (''Anti-Delete: '' @ extractUsername (Some deletedJid)
                                                 @ '' deleted a message'')]
                              else [alert, Log ''Anti-delete error'']))))))"

text \<open>
  \<^verbatim>\<open>handleIncomingMessages\<close> (lines 152--170), on the array \<^verbatim>\<open>chatUpdate.messages\<close> of a
  \<^verbatim>\<open>messages.upsert\<close> event. \<^verbatim>\<open>messages[0]\<close> of an empty array is \<^verbatim>\<open>undefined\<close>, and the
  handler returns.
\<close>

definition handleIncomingMessages ::
  "config \<Rightarrow> (effect \<Rightarrow> bool) \<Rightarrow> nat \<Rightarrow> nat \<Rightarrow> msg list \<Rightarrow> dedup \<Rightarrow> effect list \<times> dedup" where
  "handleIncomingMessages cfg ok sock now messages c =
     (case messages of
        [] \<Rightarrow> ([], c)
      | m # others \<Rightarrow>
          (if message m = None then ([], c)
           else
             (let (viewed, c') =
                    (if remoteJid (key m) = Some ''status@broadcast'' \<and> autoViewStatus cfg
                     then handleStatusView cfg ok sock now m c else ([], c));
                  alerted = (if antiDelete cfg then handleAntiDelete cfg ok sock m else [])
              in (viewed @ alerted, c'))))"

section \<open>Examples, and notions for the statements and the proofs\<close>

text \<open>
  An invariant for the proofs: the id \<^term>\<open>x\<close> is in the set with at most \<^term>\<open>k\<close>
  younger ids behind it, and every pending timer for \<^term>\<open>x\<close> is due at \<^term>\<open>D\<close>, one of
  them at least.
\<close>

definition entry_kept :: "string \<Rightarrow> nat \<Rightarrow> nat \<Rightarrow> dedup \<Rightarrow> bool" where
  "entry_kept x D k c =
     ((\<exists>pre post. viewedStatus c = pre @ x # post \<and> length post \<le> k) \<and>
      (\<forall>tm \<in> set (expiry c). snd tm = x \<longrightarrow> fst tm = D) \<and>
      (D, x) \<in> set (expiry c))"



text \<open>A pairing dialogue in which every request for a code fails.\<close>

definition failing_rounds :: "nat \<Rightarrow> attempt" where
  "failing_rounds i = \<lparr>typed = ''+254 700 000 000'', reply = Inl ''Connection Closed''\<rparr>"

text \<open>
  A pairing dialogue in which the user first types a number that is too short and then a
  good one, for which the transport returns a code.
\<close>

definition recovering_rounds :: "nat \<Rightarrow> attempt" where
  "recovering_rounds i =
     (if i = 0 then \<lparr>typed = ''12345'', reply = Inr ''ABCD-1234''\<rparr>
      else \<lparr>typed = ''254700000000'', reply = Inr ''ABCD-1234''\<rparr>)"

text \<open>Settings and surroundings for the examples.\<close>

definition example_config :: config where
  "example_config = \<lparr>botName = Some ''BMX'', ownerNumber = Some ''254700000000'',
     reconnectDelay = Some 5000, pairingDelay = None, autoViewStatus = True,
     autoReactStatus = False, statusReactionEmoji = None, antiDelete = True, antiCall = True\<rparr>"

definition registered_env :: boot_env where
  "registered_env = \<lparr>libraryError = None, registered = True, pairingRounds = failing_rounds\<rparr>"

text \<open>
  A pairing dialogue in which the user types a number that is too short, every time: no
  request reaches the transport. And a run of \<^verbatim>\<open>startBot\<close> that meets credentials that are
  not registered, and that dialogue.
\<close>

definition mistyped_rounds :: "nat \<Rightarrow> attempt" where
  "mistyped_rounds i = \<lparr>typed = ''12345'', reply = Inr ''ABCD-1234''\<rparr>"

definition unregistered_env :: boot_env where
  "unregistered_env = \<lparr>libraryError = None, registered = False, pairingRounds = mistyped_rounds\<rparr>"

definition close_update :: update where
  "close_update = \<lparr>connection = Some Close, lastError = None\<rparr>"

definition open_update :: update where
  "open_update = \<lparr>connection = Some Open, lastError = None\<rparr>"

text \<open>
  Invariants for the proofs. \<^verbatim>\<open>single\<close>: a pending restart timer or a listening session
  handle, one of the two at most. \<^verbatim>\<open>numbered\<close>: the sockets are numbered apart, below
  \<^verbatim>\<open>fresh\<close>, and those with listeners and those that have closed are among those built.
\<close>

definition single :: "world \<Rightarrow> bool" where
  "single w = (length (restarts w) + length (listening w) \<le> 1)"

definition numbered :: "world \<Rightarrow> bool" where
  "numbered w =
     ((\<forall>s \<in> set (built w). s < fresh w) \<and> distinct (built w) \<and> distinct (sockets w) \<and>
      set (sockets w) \<subseteq> set (built w) \<and> set (ended w) \<subseteq> set (built w))"

text \<open>What \<^verbatim>\<open>if (handle) clearInterval(handle)\<close> does, by the value of the variable.\<close>

definition clear_effects :: "nat option \<Rightarrow> effect list" where
  "clear_effects v = (case v of None \<Rightarrow> [] | Some h \<Rightarrow> [ClearInterval h])"

text \<open>What the program has done between two states of the process.\<close>

definition new_effects :: "world \<Rightarrow> world \<Rightarrow> effect list" where
  "new_effects w w' = drop (length (trace w)) (trace w')"

text \<open>The effects that schedule a bootstrap.\<close>

fun schedules_restart :: "effect \<Rightarrow> bool" where
  "schedules_restart (SetTimeoutStartBot d) = True"
| "schedules_restart e = False"

text \<open>Settings without a bot name and without a reconnect delay.\<close>

definition broken_config :: config where
  "broken_config = example_config\<lparr>botName := None, reconnectDelay := None\<rparr>"

text \<open>
  An invariant for the proofs: every live interval timer is the one held in
  \<^verbatim>\<open>presenceInterval\<close> or the one held in \<^verbatim>\<open>statusSyncInterval\<close>, and all handles are below
  \<^verbatim>\<open>fresh\<close>.
\<close>

definition tidy :: "world \<Rightarrow> bool" where
  "tidy w =
     ((\<forall>iv \<in> set (intervals w).
         (presenceInterval w = Some (fst iv) \<or> statusSyncInterval w = Some (fst iv)) \<and>
         fst iv < fresh w) \<and>
      (\<forall>h. presenceInterval w = Some h \<longrightarrow> h < fresh w) \<and>
      (\<forall>h. statusSyncInterval w = Some h \<longrightarrow> h < fresh w))"

text \<open>
  What the resumed open handler logs for \<^verbatim>\<open>initializeStatusViewing\<close>, and what
  \<^verbatim>\<open>startStatusSync\<close> does after \<^verbatim>\<open>startPresenceUpdates\<close> has taken the handle
  \<^verbatim>\<open>fresh\<close>.
\<close>

definition settled_effects :: "config \<Rightarrow> bool \<Rightarrow> effect list" where
  "settled_effects cfg ok =
     (if \<not> autoViewStatus cfg then []
      else if ok then [Log ''Status viewing initialized'']
      else [Log ''Status initialization failed (normal on first run)''])"

definition sync_effects :: "config \<Rightarrow> nat \<Rightarrow> world \<Rightarrow> effect list" where
  "sync_effects cfg sock w =
     (if \<not> autoViewStatus cfg then []
      else clear_effects (statusSyncInterval w) @
           [SetInterval (fresh w + 1) STATUS_SYNC_INTERVAL (Resubscribe sock)])"

text \<open>A close event whose error carries the logged-out status code.\<close>

definition logged_out_update :: update where
  "logged_out_update = \<lparr>connection = Some Close, lastError = Some (Boom loggedOut)\<rparr>"

text \<open>A status broadcast with the given id.\<close>

definition status_msg :: "string \<Rightarrow> msg" where
  "status_msg sid = \<lparr>key = \<lparr>key_id = sid, remoteJid = Some ''status@broadcast'',
       participant = Some ''254711111111@s.whatsapp.net''\<rparr>,
     message = Some \<lparr>protocolMessage = None\<rparr>\<rparr>"

text \<open>A message that revokes an earlier message of a chat.\<close>

definition revoke_msg :: msg where
  "revoke_msg = \<lparr>key = \<lparr>key_id = ''r1'', remoteJid = Some ''254722222222@s.whatsapp.net'',
       participant = None\<rparr>,
     message = Some \<lparr>protocolMessage = Some \<lparr>pm_type = Some 0,
       pm_key = Some \<lparr>key_id = ''m7'', remoteJid = Some ''254722222222@s.whatsapp.net'',
         participant = None\<rparr>\<rparr>\<rparr>\<rparr>"

section \<open>Properties of the deduplication cache\<close>

subsection \<open>Auxiliary facts\<close>

lemma cleanup_loop_drop: "cleanup_loop n vs = drop n vs"
  by (induction n vs rule: cleanup_loop.induct) simp_all

lemma cleanupViewedStatus_drop: "cleanupViewedStatus cap vs = drop (length vs - cap) vs"
  by (simp add: cleanupViewedStatus_def cleanup_loop_drop)

lemma length_cleanupViewedStatus: "length (cleanupViewedStatus cap vs) \<le> cap"
  by (simp add: cleanupViewedStatus_drop)


lemmas ev_simps = observe_at_def observeOnce_def advance_def set_has_def set_add_def set_delete_def
  cleanupViewedStatus_def timer_due_def dedup_init_def

lemma entry_kept_mono: "entry_kept x D k c \<Longrightarrow> k \<le> k' \<Longrightarrow> entry_kept x D k' c"
  unfolding entry_kept_def by (meson le_trans)















lemma observeOnce_records:
  assumes "0 < cap" and "x \<notin> set (viewedStatus c)"
  shows "x \<in> set (viewedStatus (snd (observeOnce cap ttl now x c)))"
    and "(now + ttl, x) \<in> set (expiry (snd (observeOnce cap ttl now x c)))"
proof -
  let ?n = "length (viewedStatus c @ [x]) - cap"
  have "?n \<le> length (viewedStatus c)" using assms(1) by simp
  then have "drop ?n (viewedStatus c @ [x]) = drop ?n (viewedStatus c) @ [x]"
    by simp
  then show "x \<in> set (viewedStatus (snd (observeOnce cap ttl now x c)))"
    using assms(2) by (simp add: observeOnce_def set_has_def set_add_def cleanupViewedStatus_drop)
  show "(now + ttl, x) \<in> set (expiry (snd (observeOnce cap ttl now x c)))"
    using assms(2) by (simp add: observeOnce_def set_has_def)
qed

subsection \<open>The size bound\<close>

text \<open>
  Claim C5. Immediately after any insertion of an id into the cache (a call of the gate
  that records the id), the cache holds at most as many ids as the capacity allows,
  whatever it held before; the program's capacity is \<^const>\<open>MAX_VIEWED_STATUS_SIZE\<close>, 1000.
\<close>

theorem cache_size_after_insertion:
  "fst (observeOnce cap ttl now sid c) \<Longrightarrow>
   length (viewedStatus (snd (observeOnce cap ttl now sid c))) \<le> cap"
  by (simp add: observeOnce_def length_cleanupViewedStatus split: if_splits)

text \<open>
  A full cache: with room for three ids and \<^verbatim>\<open>a\<close>, \<^verbatim>\<open>b\<close>, \<^verbatim>\<open>c\<close> in the cache, the insertion
  of \<^verbatim>\<open>d\<close> makes four ids, and the trimming brings the cache back to three.
\<close>

theorem cache_size_after_insertion_witness:
  "fst (observeOnce 3 10 0 ''d'' \<lparr>viewedStatus = [''a'', ''b'', ''c''], expiry = []\<rparr>) \<and>
   length (set_add ''d'' (viewedStatus \<lparr>viewedStatus = [''a'', ''b'', ''c''], expiry = []\<rparr>)) = 4 \<and>
   length (viewedStatus (snd (observeOnce 3 10 0 ''d''
      \<lparr>viewedStatus = [''a'', ''b'', ''c''], expiry = []\<rparr>))) \<le> 3"
proof -
  have h: "fst (observeOnce 3 10 0 ''d'' \<lparr>viewedStatus = [''a'', ''b'', ''c''], expiry = []\<rparr>)"
    by (simp add: observeOnce_def set_has_def)
  have full: "length (set_add ''d'' (viewedStatus \<lparr>viewedStatus = [''a'', ''b'', ''c''], expiry = []\<rparr>)) = 4"
    by (simp add: set_add_def)
  from h full cache_size_after_insertion [OF h] show ?thesis by (intro conjI)
qed

subsection \<open>First view and duplicates\<close>



subsection \<open>Eviction of the oldest id\<close>

text \<open>
  Claim C7. With room for three ids and four distinct ids arriving in the order
  \<^term>\<open>a\<close>, \<^term>\<open>b\<close>, \<^term>\<open>c\<close>, \<^term>\<open>d\<close> (all within the lifetime of the first entry), every
  arrival is recorded, the arrival of \<^term>\<open>d\<close> evicts \<^term>\<open>a\<close>, the oldest, and leaves
  \<^term>\<open>b\<close>, \<^term>\<open>c\<close>, \<^term>\<open>d\<close>; an arrival of \<^term>\<open>a\<close> afterwards passes the gate again.
\<close>

theorem capacity_three_evicts_oldest:
  assumes "distinct [a, b, c, d]"
      and "t1 < ttl" and "t2 < ttl" and "t3 < ttl" and "t4 < ttl" and "t5 < ttl"
  shows "fst (observe_all 3 ttl [(t1, a), (t2, b), (t3, c)] dedup_init) = [True, True, True] \<and>
         viewedStatus (snd (observe_all 3 ttl [(t1, a), (t2, b), (t3, c)] dedup_init)) = [a, b, c] \<and>
         fst (observe_all 3 ttl [(t1, a), (t2, b), (t3, c), (t4, d)] dedup_init) = [True, True, True, True] \<and>
         viewedStatus (snd (observe_all 3 ttl [(t1, a), (t2, b), (t3, c), (t4, d)] dedup_init)) = [b, c, d] \<and>
         fst (observe_at 3 ttl (t5, a)
               (snd (observe_all 3 ttl [(t1, a), (t2, b), (t3, c), (t4, d)] dedup_init)))"
  using assms by (auto simp: ev_simps)

text \<open>The ids \<^verbatim>\<open>a\<close>, \<^verbatim>\<open>b\<close>, \<^verbatim>\<open>c\<close>, \<^verbatim>\<open>d\<close> at 0 to 3 ms, and \<^verbatim>\<open>a\<close> again at 4 ms.\<close>

theorem capacity_three_evicts_oldest_witness:
  "fst (observe_all 3 STATUS_CLEANUP_INTERVAL [(0, ''a''), (1, ''b''), (2, ''c'')] dedup_init)
     = [True, True, True] \<and>
   viewedStatus (snd (observe_all 3 STATUS_CLEANUP_INTERVAL [(0, ''a''), (1, ''b''), (2, ''c'')] dedup_init))
     = [''a'', ''b'', ''c''] \<and>
   fst (observe_all 3 STATUS_CLEANUP_INTERVAL [(0, ''a''), (1, ''b''), (2, ''c''), (3, ''d'')] dedup_init)
     = [True, True, True, True] \<and>
   viewedStatus (snd (observe_all 3 STATUS_CLEANUP_INTERVAL
       [(0, ''a''), (1, ''b''), (2, ''c''), (3, ''d'')] dedup_init)) = [''b'', ''c'', ''d''] \<and>
   fst (observe_at 3 STATUS_CLEANUP_INTERVAL (4, ''a'')
         (snd (observe_all 3 STATUS_CLEANUP_INTERVAL
            [(0, ''a''), (1, ''b''), (2, ''c''), (3, ''d'')] dedup_init)))"
proof -
  have ids: "distinct [''a'', ''b'', ''c'', ''d'']" by simp
  have t1: "(0::nat) < STATUS_CLEANUP_INTERVAL" and t2: "(1::nat) < STATUS_CLEANUP_INTERVAL"
    and t3: "(2::nat) < STATUS_CLEANUP_INTERVAL" and t4: "(3::nat) < STATUS_CLEANUP_INTERVAL"
    and t5: "(4::nat) < STATUS_CLEANUP_INTERVAL"
    by (simp_all add: STATUS_CLEANUP_INTERVAL_def)
  show ?thesis
    by (rule capacity_three_evicts_oldest [OF ids t1 t2 t3 t4 t5])
qed

subsection \<open>Expiry\<close>




section \<open>Properties of pairing\<close>

subsection \<open>Auxiliary facts\<close>

lemma getPairingCode_success:
  "attempt_result (rounds i) = Inr code \<Longrightarrow>
   getPairingCode delay sock rounds i r =
     (attempt_effects delay sock (rounds i) @ [Log (''PAIR USING THIS CODE: '' @ code)], 0, Inr ())"
  by (subst getPairingCode.simps) simp

lemma getPairingCode_give_up:
  "attempt_result (rounds i) = Inl err \<Longrightarrow> \<not> r < MAX_RETRY_ATTEMPTS \<Longrightarrow>
   getPairingCode delay sock rounds i r =
     (attempt_effects delay sock (rounds i) @ [Log (''Pairing error: '' @ error_message err)],
      r, Inl MaxPairingAttempts)"
  by (subst getPairingCode.simps) simp

lemma getPairingCode_retry:
  "attempt_result (rounds i) = Inl err \<Longrightarrow> r < MAX_RETRY_ATTEMPTS \<Longrightarrow>
   getPairingCode delay sock rounds (i + 1) (r + 1) = (effs, n, res) \<Longrightarrow>
   getPairingCode delay sock rounds i r =
     (attempt_effects delay sock (rounds i) @
      [Log (''Pairing error: '' @ error_message err), LogRetrying (r + 1) MAX_RETRY_ATTEMPTS, Wait 3000] @ effs,
      n, res)"
  by (subst getPairingCode.simps) simp

lemma rounds_run_append: "rounds_run (xs @ ys) = rounds_run xs + rounds_run ys"
  by (simp add: rounds_run_def)

lemma rounds_run_Nil: "rounds_run [] = 0"
  by (simp add: rounds_run_def)

lemma rounds_run_Cons: "rounds_run (e # es) = (if e = Question then 1 else 0) + rounds_run es"
  by (simp add: rounds_run_def)

lemma rounds_run_attempt: "rounds_run (attempt_effects delay sock a) = 1"
  by (simp add: rounds_run_def attempt_effects_def Let_def)

lemma pairing_all_fail:
  assumes "MAX_RETRY_ATTEMPTS - r = n" and "r \<le> MAX_RETRY_ATTEMPTS"
      and "\<forall>j \<le> n. isl (attempt_result (rounds (i + j)))"
  shows "rounds_run (fst (getPairingCode delay sock rounds i r)) = Suc n \<and>
         snd (getPairingCode delay sock rounds i r) = (MAX_RETRY_ATTEMPTS, Inl MaxPairingAttempts)"
  using assms
proof (induction n arbitrary: i r)
  case 0
  then have r: "\<not> r < MAX_RETRY_ATTEMPTS" by simp
  from 0 have "isl (attempt_result (rounds i))" by simp
  then obtain err where "attempt_result (rounds i) = Inl err" by (auto simp: isl_def)
  with r 0 show ?case
    by (simp add: getPairingCode_give_up rounds_run_append rounds_run_attempt rounds_run_Cons rounds_run_Nil)
next
  case (Suc n)
  then have r: "r < MAX_RETRY_ATTEMPTS" by simp
  from Suc.prems(3) have "isl (attempt_result (rounds (i + 0)))" by blast
  then obtain err where err: "attempt_result (rounds i) = Inl err" by (auto simp: isl_def)
  have "MAX_RETRY_ATTEMPTS - (r + 1) = n" and "r + 1 \<le> MAX_RETRY_ATTEMPTS"
    using Suc.prems by simp_all
  moreover have "\<forall>j \<le> n. isl (attempt_result (rounds ((i + 1) + j)))"
    using Suc.prems(3) by (metis Suc_le_mono add_Suc_right add_Suc_shift Suc_eq_plus1)
  ultimately have IH:
    "rounds_run (fst (getPairingCode delay sock rounds (i + 1) (r + 1))) = Suc n \<and>
     snd (getPairingCode delay sock rounds (i + 1) (r + 1)) = (MAX_RETRY_ATTEMPTS, Inl MaxPairingAttempts)"
    by (rule Suc.IH)
  obtain effs k res where rec: "getPairingCode delay sock rounds (i + 1) (r + 1) = (effs, k, res)"
    by (metis prod_cases3)
  with IH have "rounds_run effs = Suc n" and "k = MAX_RETRY_ATTEMPTS" and "res = Inl MaxPairingAttempts"
    by simp_all
  then show ?case
    using getPairingCode_retry [OF err r rec]
    by (simp add: rounds_run_append rounds_run_attempt rounds_run_Cons rounds_run_Nil)
qed

lemma pairing_success_resets:
  "snd (snd (getPairingCode delay sock rounds i r)) = Inr () \<Longrightarrow>
   fst (snd (getPairingCode delay sock rounds i r)) = 0"
proof (induction delay sock rounds i r rule: getPairingCode.induct)
  case (1 delay sock rounds i r)
  show ?case
  proof (cases "attempt_result (rounds i)")
    case (Inr code)
    then show ?thesis by (simp add: getPairingCode_success)
  next
    case (Inl err)
    show ?thesis
    proof (cases "r < MAX_RETRY_ATTEMPTS")
      case True
      obtain effs k res where rec: "getPairingCode delay sock rounds (i + 1) (r + 1) = (effs, k, res)"
        by (metis prod_cases3)
      with "1.prems" have "res = Inr ()"
        by (simp add: getPairingCode_retry [OF Inl True rec])
      with "1.IH" [OF Inl True] rec have "k = 0" by simp
      then show ?thesis
        by (simp add: getPairingCode_retry [OF Inl True rec])
    next
      case False
      with "1.prems" Inl show ?thesis
        by (simp add: getPairingCode_give_up)
    qed
  qed
qed

subsection \<open>The bound on the rounds\<close>

text \<open>
  Against claim C2 as stated, which has the terminal failure on the fifth consecutive
  failure and no sixth attempt. \<^verbatim>\<open>getPairingCode\<close> compares \<^verbatim>\<open>retryAttempts\<close> with
  \<^const>\<open>MAX_RETRY_ATTEMPTS\<close> before it increments it, so the counter bounds the retries, not
  the attempts: the source logs them as \<^verbatim>\<open>Retrying... (1/5)\<close> to \<^verbatim>\<open>(5/5)\<close>. When every
  request fails, the first five failures are each followed by another round: the user is
  asked six times and six requests are sent.
\<close>

theorem sixth_attempt_counterexample:
  "isl (attempt_result (failing_rounds 0)) \<and> isl (attempt_result (failing_rounds 1)) \<and>
   isl (attempt_result (failing_rounds 2)) \<and> isl (attempt_result (failing_rounds 3)) \<and>
   isl (attempt_result (failing_rounds 4)) \<and>
   rounds_run (fst (getPairingCode 10000 0 failing_rounds 0 0)) = 6 \<and>
   length (filter (\<lambda>e. e = RequestPairingCode 0 ''254700000000'')
      (fst (getPairingCode 10000 0 failing_rounds 0 0))) = 6"
  by (simp add: getPairingCode.simps failing_rounds_def attempt_result_def attempt_effects_def
      formatPhoneNumber_def is_digit_def rounds_run_def MAX_RETRY_ATTEMPTS_def Let_def)

text \<open>
  Claim C2, amended. Starting from a retry counter of 0, if the first six rounds of the
  pairing dialogue fail, \<^verbatim>\<open>getPairingCode\<close> runs exactly six rounds (the first attempt and
  five retries), throws the terminal error after the sixth failure without a seventh
  round, and leaves the counter at 5. And whenever a call of \<^verbatim>\<open>getPairingCode\<close> returns
  without throwing, from any counter, which it does only after a successful request, the
  counter is 0. (No other handler runs between the rounds.)
\<close>

theorem pairing_gives_up_after_six_failures:
  "((\<forall>i < 6. isl (attempt_result (rounds i))) \<longrightarrow>
      rounds_run (fst (getPairingCode delay sock rounds 0 0)) = 6 \<and>
      snd (getPairingCode delay sock rounds 0 0) = (5, Inl MaxPairingAttempts)) \<and>
   (snd (snd (getPairingCode delay sock rounds i r)) = Inr () \<longrightarrow>
      fst (snd (getPairingCode delay sock rounds i r)) = 0)"
proof -
  have "rounds_run (fst (getPairingCode delay sock rounds 0 0)) = 6 \<and>
      snd (getPairingCode delay sock rounds 0 0) = (5, Inl MaxPairingAttempts)"
    if fails: "\<forall>i < 6. isl (attempt_result (rounds i))"
  proof -
    have "\<forall>j \<le> 5. isl (attempt_result (rounds (0 + j)))"
      using fails by simp
    from pairing_all_fail [of 0 5 rounds 0 delay sock] this
    show ?thesis by (simp add: MAX_RETRY_ATTEMPTS_def)
  qed
  then show ?thesis
    using pairing_success_resets [of delay sock rounds i r] by blast
qed

text \<open>
  The dialogue in which every request fails, from a counter of 0; and, from a counter of
  3, the dialogue in which the second round succeeds.
\<close>

theorem pairing_gives_up_after_six_failures_witness:
  "rounds_run (fst (getPairingCode 10000 0 failing_rounds 0 0)) = 6 \<and>
   snd (getPairingCode 10000 0 failing_rounds 0 0) = (5, Inl MaxPairingAttempts) \<and>
   fst (snd (getPairingCode 10000 0 recovering_rounds 0 3)) = 0"
proof -
  have h: "\<forall>i < 6. isl (attempt_result (failing_rounds i))"
    by (simp add: failing_rounds_def attempt_result_def formatPhoneNumber_def is_digit_def Let_def)
  have bad: "attempt_result (recovering_rounds 0) = Inl InvalidPhoneNumber"
    by (simp add: recovering_rounds_def attempt_result_def formatPhoneNumber_def is_digit_def Let_def)
  have good: "attempt_result (recovering_rounds (0 + 1)) = Inr ''ABCD-1234''"
    by (simp add: recovering_rounds_def attempt_result_def formatPhoneNumber_def is_digit_def Let_def)
  have less: "3 < MAX_RETRY_ATTEMPTS" by (simp add: MAX_RETRY_ATTEMPTS_def)
  have inner: "getPairingCode 10000 0 recovering_rounds (0 + 1) (3 + 1) =
      (attempt_effects 10000 0 (recovering_rounds (0 + 1)) @ [Log (''PAIR USING THIS CODE: '' @ ''ABCD-1234'')],
       0, Inr ())"
    using good by (rule getPairingCode_success)
  have returned: "snd (snd (getPairingCode 10000 0 recovering_rounds 0 3)) = Inr ()"
    using getPairingCode_retry [where rounds = recovering_rounds and i = 0, OF bad less inner] by simp
  from pairing_gives_up_after_six_failures [of failing_rounds 10000 0 0 0, THEN conjunct1, THEN mp, OF h]
    pairing_gives_up_after_six_failures [of recovering_rounds 10000 0 0 3, THEN conjunct2, THEN mp,
      OF returned]
  show ?thesis by simp
qed

section \<open>Properties of connection supervision\<close>

subsection \<open>Auxiliary facts\<close>

lemmas world_ops = emit_def clearInterval_def clear_if_set_def setInterval_def updatePresence_def

lemma close_frame:
  assumes "connection u = Some Close"
  shows "sockets (handleConnectionUpdate cfg s u w) = sockets w"
    and "built (handleConnectionUpdate cfg s u w) = built w"
    and "ended (handleConnectionUpdate cfg s u w) = ended w"
    and "fresh (handleConnectionUpdate cfg s u w) = fresh w"
    and "suspended (handleConnectionUpdate cfg s u w) = suspended w"
    and "restarts (handleConnectionUpdate cfg s u w) =
           (if shouldReconnect u then restarts w @ [reconnect_delay cfg] else restarts w)"
    and "exited (handleConnectionUpdate cfg s u w) =
           (if shouldReconnect u then exited w else Some 0)"
  using assms
  by (simp_all add: handleConnectionUpdate_def world_ops Let_def split: option.splits)

lemma open_frame:
  assumes "connection u \<noteq> Some Close"
  shows "sockets (handleConnectionUpdate cfg s u w) = sockets w"
    and "built (handleConnectionUpdate cfg s u w) = built w"
    and "ended (handleConnectionUpdate cfg s u w) = ended w"
    and "fresh (handleConnectionUpdate cfg s u w) = fresh w"
    and "restarts (handleConnectionUpdate cfg s u w) = restarts w"
    and "exited (handleConnectionUpdate cfg s u w) = exited w"
    and "intervals (handleConnectionUpdate cfg s u w) = intervals w"
    and "presenceInterval (handleConnectionUpdate cfg s u w) = presenceInterval w"
    and "statusSyncInterval (handleConnectionUpdate cfg s u w) = statusSyncInterval w"
  using assms
  by (simp_all add: handleConnectionUpdate_def world_ops initializeStatusViewing_call_def Let_def
      split: option.splits connection.splits)

lemma resume_frame:
  shows "sockets (handleConnectionUpdate_resume cfg s ok w) = sockets w"
    and "built (handleConnectionUpdate_resume cfg s ok w) = built w"
    and "ended (handleConnectionUpdate_resume cfg s ok w) = ended w"
    and "restarts (handleConnectionUpdate_resume cfg s ok w) = restarts w"
    and "exited (handleConnectionUpdate_resume cfg s ok w) = exited w"
    and "suspended (handleConnectionUpdate_resume cfg s ok w) = suspended w"
    and "fresh w \<le> fresh (handleConnectionUpdate_resume cfg s ok w)"
  by (simp_all add: handleConnectionUpdate_resume_def startStatusSync_def startPresenceUpdates_def
      initializeStatusViewing_settled_def world_ops Let_def split: option.splits)

lemma run_task_frame:
  shows "sockets (run_task t ok w) = sockets w"
    and "built (run_task t ok w) = built w"
    and "ended (run_task t ok w) = ended w"
    and "restarts (run_task t ok w) = restarts w"
    and "exited (run_task t ok w) = exited w"
    and "suspended (run_task t ok w) = suspended w"
    and "fresh (run_task t ok w) = fresh w"
    and "intervals (run_task t ok w) = intervals w"
    and "presenceInterval (run_task t ok w) = presenceInterval w"
    and "statusSyncInterval (run_task t ok w) = statusSyncInterval w"
  by (cases t; simp add: world_ops)+

lemma startBot_cases:
  "(built (startBot cfg env w) = built w @ [fresh w] \<and>
      sockets (startBot cfg env w) = sockets w @ [fresh w] \<and>
      restarts (startBot cfg env w) = restarts w \<and>
      fresh (startBot cfg env w) = fresh w + 1) \<or>
   (built (startBot cfg env w) = built w \<and>
      sockets (startBot cfg env w) = sockets w \<and>
      restarts (startBot cfg env w) = restarts w @ [reconnect_delay cfg] \<and>
      fresh (startBot cfg env w) = fresh w) \<or>
   (\<not> registered env \<and>
      built (startBot cfg env w) = built w @ [fresh w] \<and>
      sockets (startBot cfg env w) = sockets w \<and>
      restarts (startBot cfg env w) = restarts w @ [reconnect_delay cfg] \<and>
      fresh (startBot cfg env w) = fresh w + 1)"
  by (simp add: startBot_def boot_failed_def register_listeners_def world_ops Let_def
      split: sum.splits option.splits prod.splits)

lemma startBot_fresh: "fresh w \<le> fresh (startBot cfg env w)"
  using startBot_cases [of cfg env w] by auto

lemma startBot_frame:
  shows "ended (startBot cfg env w) = ended w"
    and "exited (startBot cfg env w) = exited w"
    and "suspended (startBot cfg env w) = suspended w"
    and "intervals (startBot cfg env w) = intervals w"
    and "presenceInterval (startBot cfg env w) = presenceInterval w"
    and "statusSyncInterval (startBot cfg env w) = statusSyncInterval w"
  by (simp_all add: startBot_def boot_failed_def register_listeners_def world_ops Let_def
      split: sum.splits option.splits prod.splits)

lemma numbered_startBot: "numbered w \<Longrightarrow> numbered (startBot cfg env w)"
  using startBot_cases [of cfg env w] unfolding numbered_def
  by (elim disjE) (auto simp: less_Suc_eq startBot_frame)

lemma numbered_step: "numbered w \<Longrightarrow> numbered (step cfg ev w)"
proof (cases "exited w \<noteq> None")
  case True
  assume "numbered w"
  with True show ?thesis by (simp add: step_def)
next
  case False
  assume n: "numbered w"
  from False have st: "\<And>e. step cfg e w = deliver cfg e w" by (simp add: step_def)
  show ?thesis
  proof (cases ev)
    case (ConnectionUpdate s u)
    have noted: "numbered (note_ended s u w)" if "s \<in> set (built w)"
      using n that by (simp add: numbered_def note_ended_def)
    have "numbered (handleConnectionUpdate cfg s u (note_ended s u w))" if "s \<in> set (sockets w)"
    proof -
      from n that have "s \<in> set (built w)" by (auto simp: numbered_def)
      then have "numbered (note_ended s u w)" by (rule noted)
      then show ?thesis
        by (cases "connection u = Some Close") (simp_all add: numbered_def close_frame open_frame)
    qed
    with n noted show ?thesis by (simp add: st ConnectionUpdate)
  next
    case (InitDone s ok)
    let ?w1 = "w\<lparr>suspended := remove1 s (suspended w)\<rparr>"
    have "fresh ?w1 \<le> fresh (handleConnectionUpdate_resume cfg s ok ?w1)"
      by (rule resume_frame)
    then have "numbered (handleConnectionUpdate_resume cfg s ok ?w1)"
      using n unfolding numbered_def by (auto simp: resume_frame)
    with n show ?thesis by (simp add: st InitDone)
  next
    case (IntervalFired h ok)
    with n show ?thesis
      by (simp add: st numbered_def run_task_frame split: option.splits)
  next
    case (RestartFired env)
    show ?thesis
    proof (cases "restarts w")
      case Nil
      with n show ?thesis by (simp add: st RestartFired)
    next
      case (Cons d ds)
      have "numbered (w\<lparr>restarts := ds\<rparr>)" using n by (simp add: numbered_def)
      then show ?thesis by (simp add: st RestartFired Cons numbered_startBot)
    qed
  qed
qed

lemma numbered_run: "numbered w \<Longrightarrow> numbered (run cfg evs w)"
  by (induction evs arbitrary: w) (simp_all add: numbered_step)

lemma single_startBot:
  assumes "restarts w = []" and "listening w = []" and "numbered w"
  shows "single (startBot cfg env w)"
proof -
  have fresh_new: "fresh w \<notin> set (ended w)"
    using assms(3) unfolding numbered_def by auto
  have grown: "listening (startBot cfg env w) = [fresh w]"
    if "sockets (startBot cfg env w) = sockets w @ [fresh w]"
    using that assms(2) fresh_new by (simp add: listening_def startBot_frame)
  have same: "listening (startBot cfg env w) = []"
    if "sockets (startBot cfg env w) = sockets w"
    using that assms(2) by (simp add: listening_def startBot_frame)
  from startBot_cases [of cfg env w] show ?thesis
    using assms(1) grown same by (elim disjE) (auto simp: single_def)
qed

lemma note_ended_frame:
  shows "restarts (note_ended s u w) = restarts w"
    and "built (note_ended s u w) = built w"
    and "sockets (note_ended s u w) = sockets w"
  by (simp_all add: note_ended_def)

lemma listening_note_ended:
  "s \<notin> set (sockets w) \<Longrightarrow> listening (note_ended s u w) = listening w"
  by (auto simp: listening_def note_ended_def intro: filter_cong)

lemma single_step:
  assumes "single w" and "numbered w"
      and "\<forall>s u. ev = ConnectionUpdate s u \<and> connection u = Some Close \<longrightarrow> s \<notin> set (ended w)"
  shows "single (step cfg ev w)"
proof (cases "exited w \<noteq> None")
  case True
  then show ?thesis using assms(1) by (simp add: step_def)
next
  case False
  then have st: "\<And>e. step cfg e w = deliver cfg e w" by (simp add: step_def)
  show ?thesis
  proof (cases ev)
    case (ConnectionUpdate s u)
    show ?thesis
    proof (cases "s \<in> set (sockets w)")
      case False
      with assms(1) show ?thesis
        by (simp add: st ConnectionUpdate single_def note_ended_frame listening_note_ended)
    next
      case reg: True
      show ?thesis
      proof (cases "connection u = Some Close")
        case True
        with assms(3) ConnectionUpdate have "s \<notin> set (ended w)" by simp
        with reg have "s \<in> set (listening w)" by (simp add: listening_def)
        moreover have "length (listening w) \<le> 1" using assms(1) by (simp add: single_def)
        ultimately have one: "listening w = [s]"
          by (cases "listening w") auto
        then have none: "restarts w = []" using assms(1) by (simp add: single_def)
        let ?w1 = "note_ended s u w"
        have w1: "sockets ?w1 = sockets w" "restarts ?w1 = restarts w" "fresh ?w1 = fresh w"
          "ended ?w1 = ended w @ [s]"
          using True by (simp_all add: note_ended_def)
        have "listening ?w1 = filter (\<lambda>x. x \<noteq> s) (listening w)"
          by (auto simp: listening_def w1 intro: filter_cong)
        then have "listening ?w1 = []" using one by simp
        then have "listening (handleConnectionUpdate cfg s u ?w1) = []"
          using True by (simp add: listening_def close_frame)
        moreover have "length (restarts (handleConnectionUpdate cfg s u ?w1)) \<le> 1"
          using True none by (simp add: close_frame w1)
        ultimately show ?thesis
          using reg by (simp add: st ConnectionUpdate single_def)
      next
        case False
        then have "note_ended s u w = w" by (simp add: note_ended_def)
        with False assms(1) reg show ?thesis
          by (simp add: st ConnectionUpdate single_def listening_def open_frame)
      qed
    qed
  next
    case (InitDone s ok)
    with assms(1) show ?thesis
      by (simp add: st single_def listening_def resume_frame)
  next
    case (IntervalFired h ok)
    with assms(1) show ?thesis
      by (simp add: st single_def listening_def run_task_frame split: option.splits)
  next
    case (RestartFired env)
    show ?thesis
    proof (cases "restarts w")
      case Nil
      then show ?thesis using assms(1) by (simp add: st RestartFired)
    next
      case (Cons d ds)
      with assms(1) have ds: "ds = []" and act: "listening w = []"
        by (simp_all add: single_def)
      let ?w1 = "w\<lparr>restarts := ds\<rparr>"
      have "single (startBot cfg env ?w1)"
        using assms(2) ds act
        by (intro single_startBot) (simp_all add: listening_def numbered_def)
      then show ?thesis by (simp add: st RestartFired Cons)
    qed
  qed
qed

lemma ended_step:
  "set (ended (step cfg ev w)) \<subseteq> set (ended w) \<union> set (closes [ev])"
proof (cases ev)
  case (ConnectionUpdate s u)
  then show ?thesis
    by (cases "connection u = Some Close")
       (auto simp: step_def note_ended_def close_frame open_frame)
next
  case (InitDone s ok)
  then show ?thesis by (simp add: step_def resume_frame)
next
  case (IntervalFired h ok)
  then show ?thesis by (simp add: step_def run_task_frame split: option.splits)
next
  case (RestartFired env)
  then show ?thesis by (simp add: step_def startBot_frame split: list.splits)
qed

lemma closes_Cons: "closes (ev # evs) = closes [ev] @ closes evs"
  by (cases ev) simp_all

lemma single_run:
  assumes "single w" and "numbered w"
      and "distinct (closes evs)" and "set (closes evs) \<inter> set (ended w) = {}"
  shows "single (run cfg evs w)"
  using assms
proof (induction evs arbitrary: w)
  case Nil
  then show ?case by simp
next
  case (Cons ev evs)
  have split: "closes (ev # evs) = closes [ev] @ closes evs" by (rule closes_Cons)
  have "\<forall>s u. ev = ConnectionUpdate s u \<and> connection u = Some Close \<longrightarrow> s \<notin> set (ended w)"
    using Cons.prems(4) by auto
  with Cons.prems(1,2) have 1: "single (step cfg ev w)" by (rule single_step)
  have 2: "numbered (step cfg ev w)" using Cons.prems(2) by (rule numbered_step)
  have 3: "distinct (closes evs)" using Cons.prems(3) split by simp
  have "set (closes evs) \<inter> set (closes [ev]) = {}"
    using Cons.prems(3) split by auto
  moreover have "set (closes evs) \<inter> set (ended w) = {}"
    using Cons.prems(4) split by auto
  ultimately have 4: "set (closes evs) \<inter> set (ended (step cfg ev w)) = {}"
    using ended_step [of cfg ev w] by blast
  from Cons.IH [OF 1 2 3 4] show ?case by simp
qed

lemma active_split:
  assumes "numbered w"
  shows "length (active w) \<le> length (listening w) + length (abandoned w)"
proof -
  have d: "distinct (built w)" and ds: "distinct (sockets w)"
    using assms by (simp_all add: numbered_def)
  have "set (active w) \<subseteq> set (listening w) \<union> set (abandoned w)"
    by (auto simp: active_def listening_def abandoned_def)
  then have "card (set (active w)) \<le> card (set (listening w) \<union> set (abandoned w))"
    by (intro card_mono) simp_all
  also have "\<dots> \<le> card (set (listening w)) + card (set (abandoned w))"
    by (rule card_Un_le)
  also have "\<dots> \<le> length (listening w) + length (abandoned w)"
    by (intro add_mono card_length)
  finally have "card (set (active w)) \<le> length (listening w) + length (abandoned w)" .
  moreover have "distinct (active w)" using d by (simp add: active_def)
  ultimately show ?thesis by (simp add: distinct_card)
qed

lemma paired_startBot:
  assumes "built w = sockets w" and "registered env"
  shows "built (startBot cfg env w) = sockets (startBot cfg env w)"
  using startBot_cases [of cfg env w] assms by auto

lemma paired_step:
  assumes "built w = sockets w" and "\<forall>env \<in> set (boots [ev]). registered env"
  shows "built (step cfg ev w) = sockets (step cfg ev w)"
proof (cases ev)
  case (ConnectionUpdate s u)
  have "built (handleConnectionUpdate cfg s u (note_ended s u w)) =
      sockets (handleConnectionUpdate cfg s u (note_ended s u w))"
    using assms(1)
    by (cases "connection u = Some Close") (simp_all add: note_ended_def close_frame open_frame)
  with assms(1) show ?thesis by (simp add: step_def ConnectionUpdate note_ended_frame)
next
  case (InitDone s ok)
  with assms(1) show ?thesis by (simp add: step_def resume_frame)
next
  case (IntervalFired h ok)
  with assms(1) show ?thesis by (simp add: step_def run_task_frame split: option.splits)
next
  case (RestartFired env)
  with assms show ?thesis
    by (simp add: step_def paired_startBot split: list.splits)
qed

lemma boots_Cons: "boots (ev # evs) = boots [ev] @ boots evs"
  by (cases ev) simp_all

lemma paired_run:
  assumes "built w = sockets w" and "\<forall>env \<in> set (boots evs). registered env"
  shows "built (run cfg evs w) = sockets (run cfg evs w)"
  using assms
proof (induction evs arbitrary: w)
  case Nil
  then show ?case by simp
next
  case (Cons ev evs)
  have split: "boots (ev # evs) = boots [ev] @ boots evs" by (rule boots_Cons)
  have "built (step cfg ev w) = sockets (step cfg ev w)"
    using Cons.prems split by (intro paired_step) simp_all
  moreover have "\<forall>env \<in> set (boots evs). registered env"
    using Cons.prems(2) split by simp
  ultimately show ?case using Cons.IH by simp
qed

lemma run_exited: "exited w \<noteq> None \<Longrightarrow> run cfg evs w = w"
  by (induction evs) (simp_all add: step_def)

lemma close_trace:
  assumes "connection u = Some Close"
  shows "trace (handleConnectionUpdate cfg s u w) =
           trace w @ clear_effects (presenceInterval w) @ clear_effects (statusSyncInterval w) @
           (if shouldReconnect u
            then [Log ''Connection lost. Reconnecting...'', SetTimeoutStartBot (reconnect_delay cfg)]
            else [Log ''Logged out. Please delete auth_session and restart.'', Exit 0])"
  using assms
  by (simp add: handleConnectionUpdate_def world_ops clear_effects_def Let_def split: option.splits)

lemma shouldReconnect_iff: "shouldReconnect u \<longleftrightarrow> lastError u \<noteq> Some (Boom loggedOut)"
  by (simp add: shouldReconnect_def split: option.splits disconnect_error.splits)

lemma clear_effects_no_schedule: "filter schedules_restart (clear_effects v) = []"
  by (simp add: clear_effects_def split: option.splits)

lemma reconnect_delay_cases:
  "reconnect_delay cfg =
     (case reconnectDelay cfg of None \<Rightarrow> 5000 | Some d \<Rightarrow> if d = 0 then 5000 else d)"
  by (simp add: reconnect_delay_def or_default_def truthy_number_def split: option.splits)

lemma boot_failed_result:
  "boot_failed cfg err w =
     w\<lparr>restarts := restarts w @ [reconnect_delay cfg],
       trace := trace w @ [Log (''Fatal error: '' @ error_message err), Log ''Restarting...'',
                           SetTimeoutStartBot (reconnect_delay cfg)]\<rparr>"
  by (simp add: boot_failed_def world_ops)

lemma startBot_config_error:
  assumes "validateConfig cfg = Inl err"
  shows "startBot cfg env w =
     w\<lparr>restarts := restarts w @ [reconnect_delay cfg],
       trace := trace w @ [Log (''Fatal error: '' @ error_message err), Log ''Restarting...'',
                           SetTimeoutStartBot (reconnect_delay cfg)]\<rparr>"
  using assms by (simp add: startBot_def boot_failed_result)

lemma example_config_valid: "validateConfig example_config = Inr ()"
  by (simp add: validateConfig_def example_config_def truthy_string_def truthy_number_def
      digits_10_15_def is_digit_def)

lemma broken_config_invalid: "validateConfig broken_config = Inl (MissingConfig [BotName, ReconnectDelay])"
  by (simp add: validateConfig_def broken_config_def example_config_def truthy_string_def
      truthy_number_def digits_10_15_def is_digit_def)

lemma boot_example:
  "startBot example_config registered_env w =
     register_listeners (fresh w) (w\<lparr>fresh := fresh w + 1, built := built w @ [fresh w]\<rparr>)"
  by (simp add: startBot_def example_config_valid registered_env_def Let_def)

lemma clear_if_set_fields:
  "intervals (clear_if_set v w) = filter (\<lambda>iv. Some (fst iv) \<noteq> v) (intervals w)"
  "trace (clear_if_set v w) = trace w @ clear_effects v"
  "presenceInterval (clear_if_set v w) = presenceInterval w"
  "statusSyncInterval (clear_if_set v w) = statusSyncInterval w"
  "fresh (clear_if_set v w) = fresh w"
  "suspended (clear_if_set v w) = suspended w"
  "exited (clear_if_set v w) = exited w"
  by (cases v; simp add: world_ops clear_effects_def)+

lemma startPresenceUpdates_fields:
  "intervals (startPresenceUpdates s w) =
     filter (\<lambda>iv. Some (fst iv) \<noteq> presenceInterval w) (intervals w) @
     [(fresh w, PRESENCE_UPDATE_INTERVAL, Heartbeat s)]"
  "trace (startPresenceUpdates s w) =
     trace w @ clear_effects (presenceInterval w) @
     [SendPresenceUpdate s, SetInterval (fresh w) PRESENCE_UPDATE_INTERVAL (Heartbeat s)]"
  "presenceInterval (startPresenceUpdates s w) = Some (fresh w)"
  "statusSyncInterval (startPresenceUpdates s w) = statusSyncInterval w"
  "fresh (startPresenceUpdates s w) = fresh w + 1"
  "exited (startPresenceUpdates s w) = exited w"
  by (simp_all add: startPresenceUpdates_def Let_def setInterval_def updatePresence_def emit_def
      clear_if_set_fields)

lemma startStatusSync_fields:
  "intervals (startStatusSync cfg s w) =
     (if \<not> autoViewStatus cfg then intervals w
      else filter (\<lambda>iv. Some (fst iv) \<noteq> statusSyncInterval w) (intervals w) @
           [(fresh w, STATUS_SYNC_INTERVAL, Resubscribe s)])"
  "trace (startStatusSync cfg s w) =
     (if \<not> autoViewStatus cfg then trace w
      else trace w @ clear_effects (statusSyncInterval w) @
           [SetInterval (fresh w) STATUS_SYNC_INTERVAL (Resubscribe s)])"
  "presenceInterval (startStatusSync cfg s w) = presenceInterval w"
  "statusSyncInterval (startStatusSync cfg s w) =
     (if \<not> autoViewStatus cfg then statusSyncInterval w else Some (fresh w))"
  "fresh (startStatusSync cfg s w) = (if \<not> autoViewStatus cfg then fresh w else fresh w + 1)"
  "exited (startStatusSync cfg s w) = exited w"
  by (simp_all add: startStatusSync_def Let_def setInterval_def emit_def clear_if_set_fields)

lemma settled_fields:
  "intervals (initializeStatusViewing_settled cfg ok w) = intervals w"
  "trace (initializeStatusViewing_settled cfg ok w) = trace w @ settled_effects cfg ok"
  "presenceInterval (initializeStatusViewing_settled cfg ok w) = presenceInterval w"
  "statusSyncInterval (initializeStatusViewing_settled cfg ok w) = statusSyncInterval w"
  "fresh (initializeStatusViewing_settled cfg ok w) = fresh w"
  "exited (initializeStatusViewing_settled cfg ok w) = exited w"
  by (simp_all add: initializeStatusViewing_settled_def settled_effects_def emit_def)

lemma tidy_startPresenceUpdates: "tidy w \<Longrightarrow> tidy (startPresenceUpdates s w)"
  unfolding tidy_def by (auto simp: startPresenceUpdates_fields less_Suc_eq)

lemma tidy_startStatusSync: "tidy w \<Longrightarrow> tidy (startStatusSync cfg s w)"
  unfolding tidy_def by (auto simp: startStatusSync_fields less_Suc_eq)

lemma tidy_settled: "tidy w \<Longrightarrow> tidy (initializeStatusViewing_settled cfg ok w)"
  unfolding tidy_def by (simp add: settled_fields)

lemma tidy_resume: "tidy w \<Longrightarrow> tidy (handleConnectionUpdate_resume cfg s ok w)"
  by (simp add: handleConnectionUpdate_resume_def tidy_settled tidy_startPresenceUpdates
      tidy_startStatusSync)

lemma close_fields:
  assumes "connection u = Some Close"
  shows "intervals (handleConnectionUpdate cfg s u w) =
           filter (\<lambda>iv. Some (fst iv) \<noteq> statusSyncInterval w)
             (filter (\<lambda>iv. Some (fst iv) \<noteq> presenceInterval w) (intervals w))"
    and "presenceInterval (handleConnectionUpdate cfg s u w) = presenceInterval w"
    and "statusSyncInterval (handleConnectionUpdate cfg s u w) = statusSyncInterval w"
  using assms
  by (simp_all add: handleConnectionUpdate_def Let_def emit_def clear_if_set_fields)

lemma close_clears:
  assumes "connection u = Some Close" and "tidy w"
  shows "intervals (handleConnectionUpdate cfg s u w) = []"
proof -
  have "filter (\<lambda>iv. Some (fst iv) \<noteq> statusSyncInterval w)
          (filter (\<lambda>iv. Some (fst iv) \<noteq> presenceInterval w) (intervals w)) = []"
    using assms(2) unfolding tidy_def by (auto simp: filter_empty_conv)
  then show ?thesis by (simp add: close_fields [OF assms(1)])
qed

lemma tidy_note_ended: "tidy (note_ended s u w) = tidy w"
  by (simp add: tidy_def note_ended_def)

lemma tidy_step: "tidy w \<Longrightarrow> tidy (step cfg ev w)"
proof (cases "exited w \<noteq> None")
  case True
  assume "tidy w"
  with True show ?thesis by (simp add: step_def)
next
  case False
  assume t: "tidy w"
  from False have st: "\<And>e. step cfg e w = deliver cfg e w" by (simp add: step_def)
  show ?thesis
  proof (cases ev)
    case (ConnectionUpdate s u)
    show ?thesis
    proof (cases "connection u = Some Close")
      case True
      have "tidy (handleConnectionUpdate cfg s u (note_ended s u w))"
        using t True
        by (simp add: tidy_def close_clears tidy_note_ended close_fields close_frame note_ended_def)
      with t show ?thesis by (simp add: st ConnectionUpdate tidy_note_ended)
    next
      case False
      then have "note_ended s u w = w" by (simp add: note_ended_def)
      with False t show ?thesis
        by (simp add: st ConnectionUpdate tidy_def open_frame)
    qed
  next
    case (InitDone s ok)
    have "tidy (w\<lparr>suspended := remove1 s (suspended w)\<rparr>)"
      using t by (simp add: tidy_def)
    then show ?thesis using t by (simp add: st InitDone tidy_resume)
  next
    case (IntervalFired h ok)
    with t show ?thesis
      by (simp add: st tidy_def run_task_frame split: option.splits)
  next
    case (RestartFired env)
    show ?thesis
    proof (cases "restarts w")
      case Nil
      with t show ?thesis by (simp add: st RestartFired)
    next
      case (Cons d ds)
      from startBot_cases [of cfg env "w\<lparr>restarts := ds\<rparr>"]
      have "fresh w \<le> fresh (startBot cfg env (w\<lparr>restarts := ds\<rparr>))" by auto
      with t have "tidy (startBot cfg env (w\<lparr>restarts := ds\<rparr>))"
        unfolding tidy_def by (fastforce simp: startBot_frame)
      then show ?thesis by (simp add: st RestartFired Cons)
    qed
  qed
qed

lemma tidy_run: "tidy w \<Longrightarrow> tidy (run cfg evs w)"
  by (induction evs arbitrary: w) (simp_all add: tidy_step)

lemma tidy_boot: "tidy (startBot cfg env world_init)"
  by (simp add: tidy_def startBot_frame world_init_def)

lemma quiet_step:
  assumes "intervals w = []" and "suspended w = []" and "\<not> is_open ev"
  shows "intervals (step cfg ev w) = [] \<and> suspended (step cfg ev w) = []"
proof (cases "exited w \<noteq> None")
  case True
  with assms show ?thesis by (simp add: step_def)
next
  case False
  then have st: "\<And>e. step cfg e w = deliver cfg e w" by (simp add: step_def)
  show ?thesis
  proof (cases ev)
    case (ConnectionUpdate s u)
    show ?thesis
    proof (cases "connection u = Some Close")
      case True
      with assms show ?thesis
        by (simp add: st ConnectionUpdate close_fields close_frame note_ended_def)
    next
      case False
      then have "note_ended s u w = w" by (simp add: note_ended_def)
      moreover have "handleConnectionUpdate cfg s u w = w"
        using False assms(3) ConnectionUpdate
        by (simp add: handleConnectionUpdate_def split: option.splits connection.splits)
      ultimately show ?thesis using assms by (simp add: st ConnectionUpdate)
    qed
  next
    case (InitDone s ok)
    with assms show ?thesis by (simp add: st)
  next
    case (IntervalFired h ok)
    with assms show ?thesis by (simp add: st)
  next
    case (RestartFired env)
    with assms show ?thesis by (simp add: st startBot_frame split: list.splits)
  qed
qed

lemma quiet_run:
  assumes "intervals w = []" and "suspended w = []" and "\<forall>ev \<in> set evs. \<not> is_open ev"
  shows "intervals (run cfg evs w) = [] \<and> suspended (run cfg evs w) = []"
  using assms
proof (induction evs arbitrary: w)
  case Nil
  then show ?case by simp
next
  case (Cons ev evs)
  from quiet_step [of w ev cfg] Cons.prems
  have "intervals (step cfg ev w) = []" and "suspended (step cfg ev w) = []" by simp_all
  from Cons.IH [OF this] Cons.prems(3) show ?case by simp
qed

lemma no_interval_no_task: "intervals w = [] \<Longrightarrow> step cfg (IntervalFired h ok) w = w"
  by (simp add: step_def)

lemma new_effects_append: "trace w' = trace w @ effs \<Longrightarrow> new_effects w w' = effs"
  by (simp add: new_effects_def)

lemma find_append_skip:
  "\<forall>x \<in> set xs. \<not> P x \<Longrightarrow> find P (xs @ ys) = find P ys"
  by (induction xs) simp_all

lemma resume_fields:
  assumes "tidy w"
  shows "trace (handleConnectionUpdate_resume cfg s ok w) =
           trace w @ settled_effects cfg ok @ clear_effects (presenceInterval w) @
           [SendPresenceUpdate s, SetInterval (fresh w) PRESENCE_UPDATE_INTERVAL (Heartbeat s)] @
           sync_effects cfg s w"
    and "\<exists>old rest. intervals (handleConnectionUpdate_resume cfg s ok w) =
           old @ (fresh w, PRESENCE_UPDATE_INTERVAL, Heartbeat s) # rest \<and>
           (\<forall>iv \<in> set old. fst iv \<noteq> fresh w)"
    and "exited (handleConnectionUpdate_resume cfg s ok w) = exited w"
proof -
  let ?w0 = "initializeStatusViewing_settled cfg ok w"
  let ?w1 = "startPresenceUpdates s ?w0"
  show "trace (handleConnectionUpdate_resume cfg s ok w) =
           trace w @ settled_effects cfg ok @ clear_effects (presenceInterval w) @
           [SendPresenceUpdate s, SetInterval (fresh w) PRESENCE_UPDATE_INTERVAL (Heartbeat s)] @
           sync_effects cfg s w"
    by (simp add: handleConnectionUpdate_resume_def startStatusSync_fields
        startPresenceUpdates_fields settled_fields sync_effects_def)
  show "exited (handleConnectionUpdate_resume cfg s ok w) = exited w"
    by (simp add: handleConnectionUpdate_resume_def startStatusSync_fields
        startPresenceUpdates_fields settled_fields)
  have sync: "statusSyncInterval w \<noteq> Some (fresh w)"
    using assms unfolding tidy_def by auto
  have old: "\<forall>iv \<in> set (intervals w). fst iv \<noteq> fresh w"
    using assms unfolding tidy_def by auto
  let ?old1 = "filter (\<lambda>iv. Some (fst iv) \<noteq> presenceInterval w) (intervals w)"
  let ?old2 = "filter (\<lambda>iv. Some (fst iv) \<noteq> statusSyncInterval w) ?old1"
  have i1: "intervals ?w1 = ?old1 @ [(fresh w, PRESENCE_UPDATE_INTERVAL, Heartbeat s)]"
    by (simp add: startPresenceUpdates_fields settled_fields)
  show "\<exists>old rest. intervals (handleConnectionUpdate_resume cfg s ok w) =
           old @ (fresh w, PRESENCE_UPDATE_INTERVAL, Heartbeat s) # rest \<and>
           (\<forall>iv \<in> set old. fst iv \<noteq> fresh w)"
  proof (cases "autoViewStatus cfg")
    case False
    then have "intervals (handleConnectionUpdate_resume cfg s ok w) =
        ?old1 @ (fresh w, PRESENCE_UPDATE_INTERVAL, Heartbeat s) # []"
      by (simp add: handleConnectionUpdate_resume_def startStatusSync_fields i1)
    moreover have "\<forall>iv \<in> set ?old1. fst iv \<noteq> fresh w" using old by simp
    ultimately show ?thesis by blast
  next
    case True
    then have "intervals (handleConnectionUpdate_resume cfg s ok w) =
        ?old2 @ (fresh w, PRESENCE_UPDATE_INTERVAL, Heartbeat s) #
        [(fresh w + 1, STATUS_SYNC_INTERVAL, Resubscribe s)]"
      using sync
      by (simp add: handleConnectionUpdate_resume_def startStatusSync_fields i1
          startPresenceUpdates_fields settled_fields)
    moreover have "\<forall>iv \<in> set ?old2. fst iv \<noteq> fresh w" using old by simp
    ultimately show ?thesis by blast
  qed
qed

lemma heartbeat_started:
  assumes "tidy w" and "exited w = None" and "s \<in> set (suspended w)"
  shows "new_effects w (step cfg (InitDone s ok) w) =
           settled_effects cfg ok @ clear_effects (presenceInterval w) @
           [SendPresenceUpdate s, SetInterval (fresh w) PRESENCE_UPDATE_INTERVAL (Heartbeat s)] @
           sync_effects cfg s w"
    and "(fresh w, PRESENCE_UPDATE_INTERVAL, Heartbeat s) \<in> set (intervals (step cfg (InitDone s ok) w))"
    and "new_effects (step cfg (InitDone s ok) w)
           (step cfg (IntervalFired (fresh w) b) (step cfg (InitDone s ok) w)) = [SendPresenceUpdate s]"
proof -
  let ?w0 = "w\<lparr>suspended := remove1 s (suspended w)\<rparr>"
  let ?w1 = "handleConnectionUpdate_resume cfg s ok ?w0"
  have t0: "tidy ?w0" using assms(1) by (simp add: tidy_def)
  have st: "step cfg (InitDone s ok) w = ?w1"
    using assms(2,3) by (simp add: step_def)
  from resume_fields(1) [OF t0, of cfg s ok]
  show "new_effects w (step cfg (InitDone s ok) w) =
           settled_effects cfg ok @ clear_effects (presenceInterval w) @
           [SendPresenceUpdate s, SetInterval (fresh w) PRESENCE_UPDATE_INTERVAL (Heartbeat s)] @
           sync_effects cfg s w"
    unfolding st by (intro new_effects_append) (simp add: sync_effects_def)
  from resume_fields(2) [OF t0, of cfg s ok]
  obtain old rest where iv: "intervals ?w1 = old @ (fresh w, PRESENCE_UPDATE_INTERVAL, Heartbeat s) # rest"
    and old: "\<forall>iv \<in> set old. fst iv \<noteq> fresh w" by auto
  from iv show "(fresh w, PRESENCE_UPDATE_INTERVAL, Heartbeat s) \<in> set (intervals (step cfg (InitDone s ok) w))"
    by (simp add: st)
  have "find (\<lambda>iv. fst iv = fresh w) (intervals ?w1) = Some (fresh w, PRESENCE_UPDATE_INTERVAL, Heartbeat s)"
    using old by (simp add: iv find_append_skip)
  moreover have "exited ?w1 = None"
    using assms(2) by (simp add: resume_fields(3) [OF t0])
  ultimately have "step cfg (IntervalFired (fresh w) b) ?w1 = emit [SendPresenceUpdate s] ?w1"
    by (simp add: step_def updatePresence_def)
  then show "new_effects (step cfg (InitDone s ok) w)
           (step cfg (IntervalFired (fresh w) b) (step cfg (InitDone s ok) w)) = [SendPresenceUpdate s]"
    by (simp add: st new_effects_def emit_def)
qed

lemma close_stops_maintenance:
  assumes "tidy w" and "exited w = None" and "s \<in> set (sockets w)" and "connection u = Some Close"
  shows "new_effects w (step cfg (ConnectionUpdate s u) w) =
           clear_effects (presenceInterval w) @ clear_effects (statusSyncInterval w) @
           (if shouldReconnect u
            then [Log ''Connection lost. Reconnecting...'', SetTimeoutStartBot (reconnect_delay cfg)]
            else [Log ''Logged out. Please delete auth_session and restart.'', Exit 0])"
    and "intervals (step cfg (ConnectionUpdate s u) w) = []"
    and "suspended (step cfg (ConnectionUpdate s u) w) = suspended w"
proof -
  let ?w0 = "note_ended s u w"
  have st: "step cfg (ConnectionUpdate s u) w = handleConnectionUpdate cfg s u ?w0"
    using assms(2,3) by (simp add: step_def)
  have w0: "trace ?w0 = trace w" "presenceInterval ?w0 = presenceInterval w"
    "statusSyncInterval ?w0 = statusSyncInterval w" "suspended ?w0 = suspended w"
    by (simp_all add: note_ended_def)
  show "new_effects w (step cfg (ConnectionUpdate s u) w) =
           clear_effects (presenceInterval w) @ clear_effects (statusSyncInterval w) @
           (if shouldReconnect u
            then [Log ''Connection lost. Reconnecting...'', SetTimeoutStartBot (reconnect_delay cfg)]
            else [Log ''Logged out. Please delete auth_session and restart.'', Exit 0])"
    unfolding st by (intro new_effects_append) (simp add: close_trace [OF assms(4)] w0)
  show "intervals (step cfg (ConnectionUpdate s u) w) = []"
    unfolding st using assms(1,4) by (simp add: close_clears tidy_note_ended)
  show "suspended (step cfg (ConnectionUpdate s u) w) = suspended w"
    unfolding st by (simp add: close_frame [OF assms(4)] w0)
qed

lemma example_delay: "reconnect_delay example_config = 5000"
  by (simp add: reconnect_delay_cases example_config_def)

lemma example_auto_view: "autoViewStatus example_config"
  by (simp add: example_config_def)

lemma example_name: "botName example_config = Some ''BMX''"
  by (simp add: example_config_def)

lemmas sup_eval = example_name step_def boot_example register_listeners_def world_ops note_ended_def
  handleConnectionUpdate_def handleConnectionUpdate_resume_def startPresenceUpdates_def
  startStatusSync_def initializeStatusViewing_call_def initializeStatusViewing_settled_def
  shouldReconnect_def world_init_def close_update_def example_delay example_auto_view Let_def

lemma startBot_pairing_given_up:
  assumes "validateConfig cfg = Inr ()" and "libraryError env = None" and "\<not> registered env"
      and "snd (getPairingCode (PAIRING_STABILIZATION_DELAY cfg) (fresh w) (pairingRounds env) 0
             (retryAttempts w)) = (n, Inl err)"
  shows "built (startBot cfg env w) = built w @ [fresh w]"
    and "sockets (startBot cfg env w) = sockets w"
    and "restarts (startBot cfg env w) = restarts w @ [reconnect_delay cfg]"
    and "fresh (startBot cfg env w) = fresh w + 1"
    and "retryAttempts (startBot cfg env w) = n"
proof -
  obtain effs where "getPairingCode (PAIRING_STABILIZATION_DELAY cfg) (fresh w) (pairingRounds env) 0
      (retryAttempts w) = (effs, n, Inl err)"
    using assms(4) by (cases "getPairingCode (PAIRING_STABILIZATION_DELAY cfg) (fresh w)
      (pairingRounds env) 0 (retryAttempts w)") simp
  with assms(1-3) show "built (startBot cfg env w) = built w @ [fresh w]"
    and "sockets (startBot cfg env w) = sockets w"
    and "restarts (startBot cfg env w) = restarts w @ [reconnect_delay cfg]"
    and "fresh (startBot cfg env w) = fresh w + 1"
    and "retryAttempts (startBot cfg env w) = n"
    by (simp_all add: startBot_def boot_failed_def world_ops Let_def)
qed

lemma mistyped_rounds_fail: "attempt_result (mistyped_rounds i) = Inl InvalidPhoneNumber"
  by (simp add: mistyped_rounds_def attempt_result_def formatPhoneNumber_def is_digit_def Let_def)

lemma mistyped_rounds_silent:
  "attempt_effects delay sock (mistyped_rounds i) =
     [Log ''Stabilizing connection... please wait.'', Wait delay, Question]"
  by (simp add: mistyped_rounds_def attempt_effects_def formatPhoneNumber_def is_digit_def Let_def)

lemma failing_boot:
  assumes "retryAttempts w \<le> MAX_RETRY_ATTEMPTS"
  shows "built (startBot example_config unregistered_env w) = built w @ [fresh w]"
    and "sockets (startBot example_config unregistered_env w) = sockets w"
    and "restarts (startBot example_config unregistered_env w) = restarts w @ [5000]"
    and "fresh (startBot example_config unregistered_env w) = fresh w + 1"
    and "retryAttempts (startBot example_config unregistered_env w) = MAX_RETRY_ATTEMPTS"
proof -
  have gave_up: "snd (getPairingCode (PAIRING_STABILIZATION_DELAY example_config) (fresh w)
      (pairingRounds unregistered_env) 0 (retryAttempts w)) = (MAX_RETRY_ATTEMPTS, Inl MaxPairingAttempts)"
    using pairing_all_fail [OF refl assms, of mistyped_rounds 0]
    by (simp add: unregistered_env_def mistyped_rounds_fail)
  have env: "libraryError unregistered_env = None" "\<not> registered unregistered_env"
    by (simp_all add: unregistered_env_def)
  note r = startBot_pairing_given_up [OF example_config_valid env gave_up]
  from r show "built (startBot example_config unregistered_env w) = built w @ [fresh w]"
    and "sockets (startBot example_config unregistered_env w) = sockets w"
    and "restarts (startBot example_config unregistered_env w) = restarts w @ [5000]"
    and "fresh (startBot example_config unregistered_env w) = fresh w + 1"
    and "retryAttempts (startBot example_config unregistered_env w) = MAX_RETRY_ATTEMPTS"
    by (simp_all add: example_delay)
qed

subsection \<open>Close events\<close>

text \<open>
  Claim C1. For a close event: if the error of the disconnect is a \<^verbatim>\<open>Boom\<close> error with the
  logged-out status code, the handler schedules no bootstrap and ends the process with
  status 0, after which no event changes anything any more, so that no bootstrap is ever
  scheduled; for any other close event, also one without an error, it schedules exactly
  one bootstrap, with the configured reconnect delay, and does not end the process. The
  delay is \<^verbatim>\<open>config.reconnectDelay\<close>, or 5000 ms when that is absent or 0.
\<close>

theorem close_event_policy:
  assumes "connection u = Some Close"
  shows "(lastError u = Some (Boom loggedOut) \<longrightarrow>
            restarts (handleConnectionUpdate cfg s u w) = restarts w \<and>
            filter schedules_restart (new_effects w (handleConnectionUpdate cfg s u w)) = [] \<and>
            exited (handleConnectionUpdate cfg s u w) = Some 0 \<and>
            last (trace (handleConnectionUpdate cfg s u w)) = Exit 0 \<and>
            run cfg evs (handleConnectionUpdate cfg s u w) = handleConnectionUpdate cfg s u w) \<and>
         (lastError u \<noteq> Some (Boom loggedOut) \<longrightarrow>
            restarts (handleConnectionUpdate cfg s u w) = restarts w @ [reconnect_delay cfg] \<and>
            filter schedules_restart (new_effects w (handleConnectionUpdate cfg s u w))
              = [SetTimeoutStartBot (reconnect_delay cfg)] \<and>
            exited (handleConnectionUpdate cfg s u w) = exited w) \<and>
         reconnect_delay cfg =
           (case reconnectDelay cfg of None \<Rightarrow> 5000 | Some d \<Rightarrow> if d = 0 then 5000 else d)"
proof -
  let ?w' = "handleConnectionUpdate cfg s u w"
  note tr = close_trace [OF assms, of cfg s w]
  have out: "restarts ?w' = restarts w \<and> filter schedules_restart (new_effects w ?w') = [] \<and>
      exited ?w' = Some 0 \<and> last (trace ?w') = Exit 0 \<and> run cfg evs ?w' = ?w'"
    if "lastError u = Some (Boom loggedOut)"
  proof -
    from that have no: "\<not> shouldReconnect u" by (simp add: shouldReconnect_iff)
    then have ex: "exited ?w' = Some 0" by (simp add: close_frame [OF assms])
    then have "run cfg evs ?w' = ?w'" by (simp add: run_exited)
    with no ex show ?thesis
      by (simp add: close_frame [OF assms] tr new_effects_def clear_effects_no_schedule)
  qed
  have recover: "restarts ?w' = restarts w @ [reconnect_delay cfg] \<and>
      filter schedules_restart (new_effects w ?w') = [SetTimeoutStartBot (reconnect_delay cfg)] \<and>
      exited ?w' = exited w"
    if "lastError u \<noteq> Some (Boom loggedOut)"
    using that
    by (simp add: shouldReconnect_iff close_frame [OF assms] tr new_effects_def
        clear_effects_no_schedule)
  from out recover reconnect_delay_cases show ?thesis by blast
qed

text \<open>A logged-out close event and a close event without an error, in the initial state.\<close>

theorem close_event_policy_witness:
  "restarts (handleConnectionUpdate example_config 0 logged_out_update world_init) = restarts world_init \<and>
   exited (handleConnectionUpdate example_config 0 logged_out_update world_init) = Some 0 \<and>
   restarts (handleConnectionUpdate example_config 0 close_update world_init)
     = restarts world_init @ [reconnect_delay example_config] \<and>
   exited (handleConnectionUpdate example_config 0 close_update world_init) = exited world_init"
proof -
  have c1: "connection logged_out_update = Some Close" by (simp add: logged_out_update_def)
  have e1: "lastError logged_out_update = Some (Boom loggedOut)" by (simp add: logged_out_update_def)
  have c2: "connection close_update = Some Close" by (simp add: close_update_def)
  have e2: "lastError close_update \<noteq> Some (Boom loggedOut)" by (simp add: close_update_def)
  from close_event_policy [OF c1, of example_config 0 world_init "[]", THEN conjunct1, THEN mp, OF e1]
  have out: "restarts (handleConnectionUpdate example_config 0 logged_out_update world_init) = restarts world_init"
    "exited (handleConnectionUpdate example_config 0 logged_out_update world_init) = Some 0"
    by simp_all
  from close_event_policy [OF c2, of example_config 0 world_init "[]", THEN conjunct2, THEN conjunct1, THEN mp, OF e2]
  have again: "restarts (handleConnectionUpdate example_config 0 close_update world_init)
       = restarts world_init @ [reconnect_delay example_config]"
    "exited (handleConnectionUpdate example_config 0 close_update world_init) = exited world_init"
    by simp_all
  from out again show ?thesis by (intro conjI)
qed

subsection \<open>Configuration errors\<close>

text \<open>
  Against claim C3 as stated, which has a configuration error fatal and not retried.
  \<^verbatim>\<open>validateConfig()\<close> is called inside the \<^verbatim>\<open>try\<close> block of \<^verbatim>\<open>startBot\<close>, whose \<^verbatim>\<open>catch\<close>
  block schedules \<^verbatim>\<open>startBot\<close> again whatever the error. With settings that lack the bot
  name and the reconnect delay, the first run schedules a restart after 5000 ms and the
  process stays alive; when the timer fires, the second run fails in the same way and
  schedules the next one.
\<close>

theorem config_error_counterexample:
  "validateConfig broken_config = Inl (MissingConfig [BotName, ReconnectDelay]) \<and>
   restarts (startBot broken_config registered_env world_init) = [5000] \<and>
   exited (startBot broken_config registered_env world_init) = None \<and>
   trace (run broken_config [RestartFired registered_env] (startBot broken_config registered_env world_init))
     = [Log ''Fatal error: Missing required config: botName, reconnectDelay'', Log ''Restarting...'', SetTimeoutStartBot 5000,
        Log ''Fatal error: Missing required config: botName, reconnectDelay'', Log ''Restarting...'', SetTimeoutStartBot 5000]"
proof -
  have rd: "reconnect_delay broken_config = 5000"
    by (simp add: reconnect_delay_cases broken_config_def)
  note r = startBot_config_error [OF broken_config_invalid, of registered_env]
  have 1: "restarts (startBot broken_config registered_env world_init) = [5000]"
    and 2: "exited (startBot broken_config registered_env world_init) = None"
    and 3: "trace (startBot broken_config registered_env world_init) =
      [Log ''Fatal error: Missing required config: botName, reconnectDelay'', Log ''Restarting...'', SetTimeoutStartBot 5000]"
    using r [of world_init] by (simp_all add: rd world_init_def)
  let ?w1 = "startBot broken_config registered_env world_init"
  have "trace (startBot broken_config registered_env (?w1\<lparr>restarts := []\<rparr>)) =
      trace ?w1 @ [Log ''Fatal error: Missing required config: botName, reconnectDelay'', Log ''Restarting...'', SetTimeoutStartBot 5000]"
    using r [of "?w1\<lparr>restarts := []\<rparr>"] by (simp add: rd)
  then have "trace (run broken_config [RestartFired registered_env] ?w1) =
      [Log ''Fatal error: Missing required config: botName, reconnectDelay'', Log ''Restarting...'', SetTimeoutStartBot 5000,
       Log ''Fatal error: Missing required config: botName, reconnectDelay'', Log ''Restarting...'', SetTimeoutStartBot 5000]"
    by (simp add: step_def 1 2 3)
  with 1 2 broken_config_invalid show ?thesis by simp
qed

text \<open>
  Claim C3, amended. If the validation of the configuration fails, \<^verbatim>\<open>startBot\<close> catches
  the error, logs it as fatal and schedules exactly one retry of itself after the
  reconnect delay, which is \<^verbatim>\<open>config.reconnectDelay\<close>, or 5000 ms when that is absent or 0.
  Nothing else changes: no session is created (no handle is taken, no socket is built
  and none gets listeners) and the process is not ended. When that timer fires (no other
  restart being pending), \<^verbatim>\<open>startBot\<close> runs again.
\<close>

theorem config_error_is_retried:
  assumes "validateConfig cfg = Inl err"
  shows "startBot cfg env w =
           w\<lparr>restarts := restarts w @ [reconnect_delay cfg],
             trace := trace w @ [Log (''Fatal error: '' @ error_message err), Log ''Restarting...'',
                                 SetTimeoutStartBot (reconnect_delay cfg)]\<rparr> \<and>
         restarts (startBot cfg env w) = restarts w @ [reconnect_delay cfg] \<and>
         filter schedules_restart (new_effects w (startBot cfg env w))
           = [SetTimeoutStartBot (reconnect_delay cfg)] \<and>
         reconnect_delay cfg =
           (case reconnectDelay cfg of None \<Rightarrow> 5000 | Some d \<Rightarrow> if d = 0 then 5000 else d) \<and>
         fresh (startBot cfg env w) = fresh w \<and>
         built (startBot cfg env w) = built w \<and>
         sockets (startBot cfg env w) = sockets w \<and>
         exited (startBot cfg env w) = exited w \<and>
         (restarts w = [] \<and> exited w = None \<longrightarrow>
            step cfg (RestartFired env') (startBot cfg env w) =
              startBot cfg env' ((startBot cfg env w)\<lparr>restarts := []\<rparr>))"
proof -
  note failed = startBot_config_error [OF assms, of env w]
  have fields: "restarts (startBot cfg env w) = restarts w @ [reconnect_delay cfg]"
    "fresh (startBot cfg env w) = fresh w" "built (startBot cfg env w) = built w"
    "sockets (startBot cfg env w) = sockets w" "exited (startBot cfg env w) = exited w"
    "ended (startBot cfg env w) = ended w"
    by (simp_all add: failed)
  have one: "filter schedules_restart (new_effects w (startBot cfg env w))
      = [SetTimeoutStartBot (reconnect_delay cfg)]"
    by (simp add: failed new_effects_def)
  have again: "step cfg (RestartFired env') (startBot cfg env w) =
      startBot cfg env' ((startBot cfg env w)\<lparr>restarts := []\<rparr>)"
    if "restarts w = []" and "exited w = None"
    using fields that by (simp add: step_def)
  from failed fields one again reconnect_delay_cases [of cfg] show ?thesis by blast
qed

text \<open>The settings without bot name and reconnect delay, at the start of the process.\<close>

theorem config_error_is_retried_witness:
  "restarts (startBot broken_config registered_env world_init)
     = restarts world_init @ [reconnect_delay broken_config] \<and>
   filter schedules_restart (new_effects world_init (startBot broken_config registered_env world_init))
     = [SetTimeoutStartBot (reconnect_delay broken_config)] \<and>
   reconnect_delay broken_config = 5000 \<and>
   fresh (startBot broken_config registered_env world_init) = fresh world_init \<and>
   built (startBot broken_config registered_env world_init) = built world_init \<and>
   sockets (startBot broken_config registered_env world_init) = sockets world_init \<and>
   exited (startBot broken_config registered_env world_init) = exited world_init \<and>
   step broken_config (RestartFired registered_env) (startBot broken_config registered_env world_init) =
     startBot broken_config registered_env
       ((startBot broken_config registered_env world_init)\<lparr>restarts := []\<rparr>)"
proof -
  have h: "validateConfig broken_config = Inl (MissingConfig [BotName, ReconnectDelay])"
    by (simp add: validateConfig_def broken_config_def example_config_def truthy_string_def
        truthy_number_def digits_10_15_def is_digit_def)
  have idle: "restarts world_init = [] \<and> exited world_init = None"
    by (simp add: world_init_def)
  have none: "reconnectDelay broken_config = None"
    by (simp add: broken_config_def)
  note inst = config_error_is_retried [OF h, of registered_env world_init registered_env]
  note rest = inst [THEN conjunct2]
  note rest3 = rest [THEN conjunct2, THEN conjunct2]
  note rest5 = rest3 [THEN conjunct2, THEN conjunct2]
  note rest7 = rest5 [THEN conjunct2, THEN conjunct2]
  have d: "reconnect_delay broken_config = 5000"
    using rest3 [THEN conjunct1] by (simp add: none)
  from rest [THEN conjunct1] rest [THEN conjunct2, THEN conjunct1] d
    rest3 [THEN conjunct2, THEN conjunct1] rest5 [THEN conjunct1]
    rest5 [THEN conjunct2, THEN conjunct1] rest7 [THEN conjunct1]
    rest7 [THEN conjunct2, THEN mp, OF idle]
  show ?thesis by (intro conjI)
qed

subsection \<open>One session, one restart timer\<close>

text \<open>
  A run of \<^verbatim>\<open>startBot\<close> waits for the transport library and for the pairing, and other
  handlers may run meanwhile. In a state in which no restart is pending and no socket
  with listeners is open, which is where a run of \<^verbatim>\<open>startBot\<close> starts and stays until it
  registers its listeners or schedules a restart, an event leaves the restart timers,
  the sockets built and the sockets with listeners as they are, as long as no socket
  delivers a second close event.
\<close>

lemma boot_window_quiet:
  assumes "restarts w = []" and "listening w = []"
      and "\<forall>s u. ev = ConnectionUpdate s u \<and> connection u = Some Close \<longrightarrow> s \<notin> set (ended w)"
  shows "restarts (step cfg ev w) = [] \<and> built (step cfg ev w) = built w \<and>
         sockets (step cfg ev w) = sockets w \<and> listening (step cfg ev w) = []"
proof (cases "exited w \<noteq> None")
  case True
  then show ?thesis using assms(1,2) by (simp add: step_def)
next
  case False
  then have st: "\<And>e. step cfg e w = deliver cfg e w" by (simp add: step_def)
  show ?thesis
  proof (cases ev)
    case (ConnectionUpdate s u)
    show ?thesis
    proof (cases "s \<in> set (sockets w)")
      case False
      then show ?thesis
        using assms(1,2) by (simp add: st ConnectionUpdate note_ended_frame listening_note_ended)
    next
      case reg: True
      from assms(2) reg have "s \<in> set (ended w)"
        by (auto simp: listening_def filter_empty_conv)
      with assms(3) ConnectionUpdate have nc: "connection u \<noteq> Some Close" by auto
      then have "note_ended s u w = w" by (simp add: note_ended_def)
      with nc reg assms(1,2) show ?thesis
        by (simp add: st ConnectionUpdate listening_def open_frame)
    qed
  next
    case (InitDone s ok)
    with assms(1,2) show ?thesis
      by (simp add: st listening_def resume_frame)
  next
    case (IntervalFired h ok)
    with assms(1,2) show ?thesis
      by (simp add: st listening_def run_task_frame split: option.splits)
  next
    case (RestartFired env)
    with assms(1,2) show ?thesis by (simp add: st)
  qed
qed

text \<open>
  Why the theorem below asks that no socket delivers two close events: the close branch
  of \<^verbatim>\<open>handleConnectionUpdate\<close> calls \<^verbatim>\<open>setTimeout(() => startBot(), delay)\<close> without looking
  at what is pending. Were the first socket to deliver two close events, two restarts
  would be pending at the same time, and two sockets would have listeners once both
  timers have fired.
\<close>

lemma double_close_example:
  "restarts (run example_config [ConnectionUpdate 0 close_update, ConnectionUpdate 0 close_update]
      (startBot example_config registered_env world_init)) = [5000, 5000] \<and>
   listening (run example_config [ConnectionUpdate 0 close_update, ConnectionUpdate 0 close_update,
        RestartFired registered_env, RestartFired registered_env]
      (startBot example_config registered_env world_init)) = [1, 2]"
  by (simp add: sup_eval listening_def)

text \<open>
  Against claim C4 as stated, for any sequence of events. Nothing in the program records
  a pending restart or the current socket, and the program never ends a socket. When the
  stored credentials are not registered and the user types a number that is too short
  at every prompt, \<^verbatim>\<open>getPairingCode\<close> throws after \<^verbatim>\<open>makeWASocket\<close> has built the socket
  (line 280), without a request to the transport: the \<^verbatim>\<open>catch\<close> block of \<^verbatim>\<open>startBot\<close>
  schedules a restart, and the socket stays as it is, without listeners. No socket
  delivers any event. After the first run a restart is pending while a session handle
  is active. When the timer fires, the second run builds a second socket and gives up
  at the first prompt (the counter is still 5): two session handles are active, and a
  restart is pending again.
\<close>

theorem abandoned_transport_counterexample:
  "closes [RestartFired unregistered_env] = [] \<and>
   restarts (startBot example_config unregistered_env world_init) = [5000] \<and>
   active (startBot example_config unregistered_env world_init) = [0] \<and>
   restarts (run example_config [RestartFired unregistered_env]
      (startBot example_config unregistered_env world_init)) = [5000] \<and>
   active (run example_config [RestartFired unregistered_env]
      (startBot example_config unregistered_env world_init)) = [0, 1] \<and>
   listening (run example_config [RestartFired unregistered_env]
      (startBot example_config unregistered_env world_init)) = []"
proof -
  let ?a = "startBot example_config unregistered_env world_init"
  let ?b = "startBot example_config unregistered_env (?a\<lparr>restarts := []\<rparr>)"
  have "retryAttempts world_init \<le> MAX_RETRY_ATTEMPTS" by (simp add: world_init_def)
  note a = failing_boot [OF this]
  have a': "built ?a = [0]" "sockets ?a = []" "restarts ?a = [5000]" "fresh ?a = 1"
    "ended ?a = []" "exited ?a = None"
    using a by (simp_all add: world_init_def startBot_frame)
  have e1: "ended (?a\<lparr>restarts := []\<rparr>) = []" by (simp add: a')
  have "retryAttempts (?a\<lparr>restarts := []\<rparr>) \<le> MAX_RETRY_ATTEMPTS" by (simp add: a)
  note b = failing_boot [OF this]
  have b': "built ?b = [0, 1]" "sockets ?b = []" "restarts ?b = [5000]" "ended ?b = []"
    using b e1 by (simp_all add: a' startBot_frame del: world.simps)
  have r: "run example_config [RestartFired unregistered_env] ?a = ?b"
    by (simp add: step_def a')
  show ?thesis
    unfolding r by (simp add: a' b' active_def listening_def)
qed

text \<open>
  Claim C4, amended. Provided that no socket delivers more than one close event, at
  every point of every sequence of events after the start of the process:
  \<^item> at most one restart timer is pending and at most one session handle with the
    listeners of the program is active, and never both, so that no bootstrap is scheduled
    while another is pending;
  \<^item> the active session handles beyond that are sockets that a failed run of \<^verbatim>\<open>startBot\<close>
    has abandoned without listeners;
  \<^item> when every run of \<^verbatim>\<open>startBot\<close> meets registered credentials, no socket is abandoned:
    then at most one active session handle and at most one pending restart timer exist,
    and never both.
\<close>

theorem one_session_one_timer:
  assumes "distinct (closes evs)"
  shows "length (restarts (run cfg evs (startBot cfg env world_init))) +
           length (listening (run cfg evs (startBot cfg env world_init))) \<le> 1 \<and>
         length (restarts (run cfg evs (startBot cfg env world_init))) +
           length (active (run cfg evs (startBot cfg env world_init)))
           \<le> 1 + length (abandoned (run cfg evs (startBot cfg env world_init))) \<and>
         (registered env \<and> (\<forall>env' \<in> set (boots evs). registered env') \<longrightarrow>
            abandoned (run cfg evs (startBot cfg env world_init)) = [])"
proof -
  let ?boot = "startBot cfg env world_init"
  let ?end = "run cfg evs ?boot"
  have n0: "numbered world_init" by (simp add: numbered_def world_init_def)
  from n0 have n1: "numbered ?boot" by (rule numbered_startBot)
  from n1 have n: "numbered ?end" by (rule numbered_run)
  have "single ?boot"
    using n0 by (intro single_startBot) (simp_all add: world_init_def listening_def)
  moreover have "ended ?boot = []"
    by (simp add: startBot_frame world_init_def)
  ultimately have "single ?end"
    using assms n1 by (intro single_run) simp_all
  then have one: "length (restarts ?end) + length (listening ?end) \<le> 1"
    by (simp add: single_def)
  from active_split [OF n] one
  have two: "length (restarts ?end) + length (active ?end) \<le> 1 + length (abandoned ?end)"
    by simp
  have three: "abandoned ?end = []"
    if "registered env" and "\<forall>env' \<in> set (boots evs). registered env'"
  proof -
    have "built ?boot = sockets ?boot"
      using that(1) by (intro paired_startBot) (simp add: world_init_def)
    then have "built ?end = sockets ?end"
      using that(2) by (rule paired_run)
    then show ?thesis by (simp add: abandoned_def)
  qed
  from one two three show ?thesis by blast
qed

text \<open>
  Two sessions with registered credentials, each closed once, with the restart in
  between; and the two runs of \<^verbatim>\<open>startBot\<close> that give up the pairing.
\<close>

theorem one_session_one_timer_witness:
  "length (restarts (run example_config
       [ConnectionUpdate 0 close_update, RestartFired registered_env, ConnectionUpdate 1 close_update]
       (startBot example_config registered_env world_init))) +
   length (listening (run example_config
       [ConnectionUpdate 0 close_update, RestartFired registered_env, ConnectionUpdate 1 close_update]
       (startBot example_config registered_env world_init))) \<le> 1 \<and>
   length (restarts (run example_config
       [ConnectionUpdate 0 close_update, RestartFired registered_env, ConnectionUpdate 1 close_update]
       (startBot example_config registered_env world_init))) +
   length (active (run example_config
       [ConnectionUpdate 0 close_update, RestartFired registered_env, ConnectionUpdate 1 close_update]
       (startBot example_config registered_env world_init))) \<le> 1 \<and>
   length (restarts (run example_config [RestartFired unregistered_env]
       (startBot example_config unregistered_env world_init))) +
   length (active (run example_config [RestartFired unregistered_env]
       (startBot example_config unregistered_env world_init)))
     \<le> 1 + length (abandoned (run example_config [RestartFired unregistered_env]
       (startBot example_config unregistered_env world_init)))"
proof -
  let ?evs = "[ConnectionUpdate 0 close_update, RestartFired registered_env, ConnectionUpdate 1 close_update]"
  have h: "distinct (closes ?evs)"
    by (simp add: close_update_def)
  have g: "registered registered_env \<and> (\<forall>env' \<in> set (boots ?evs). registered env')"
    by (simp add: registered_env_def)
  have h': "distinct (closes [RestartFired unregistered_env])" by simp
  note inst = one_session_one_timer [OF h, of example_config registered_env]
  note none = inst [THEN conjunct2, THEN conjunct2, THEN mp, OF g]
  have 1: "length (restarts (run example_config ?evs (startBot example_config registered_env world_init))) +
      length (listening (run example_config ?evs (startBot example_config registered_env world_init))) \<le> 1"
    by (rule inst [THEN conjunct1])
  have 2: "length (restarts (run example_config ?evs (startBot example_config registered_env world_init))) +
      length (active (run example_config ?evs (startBot example_config registered_env world_init))) \<le> 1"
    using inst [THEN conjunct2, THEN conjunct1] unfolding none by simp
  note 3 = one_session_one_timer [OF h', of example_config unregistered_env, THEN conjunct2, THEN conjunct1]
  from 1 2 3 show ?thesis by (intro conjI)
qed

subsection \<open>Maintenance timers\<close>

text \<open>
  Against claim C9 as stated, which has no maintenance task fire after a close event.
  The open branch of \<^verbatim>\<open>handleConnectionUpdate\<close> starts the two timers only after
  \<^verbatim>\<open>await initializeStatusViewing(sock)\<close> (line 260), and does not look at the connection
  again when it resumes. If the close event of the same socket is handled while the open
  handler is waiting there, the close branch finds no timer to cancel and schedules the
  restart; the open handler then resumes, sends a heartbeat and starts both timers, and
  both fire after the close event.
\<close>

theorem heartbeat_after_close_counterexample:
  "trace (run example_config
      [ConnectionUpdate 0 open_update, ConnectionUpdate 0 close_update, InitDone 0 False,
       IntervalFired 1 False, IntervalFired 2 False]
      (startBot example_config registered_env world_init)) =
   [Log ''Bot initialized successfully'', Log ''BMX is ONLINE!'', SubscribeStatus 0,
    Log ''Connection lost. Reconnecting...'', SetTimeoutStartBot 5000,
    Log ''Status initialization failed (normal on first run)'', SendPresenceUpdate 0,
    SetInterval 1 PRESENCE_UPDATE_INTERVAL (Heartbeat 0),
    SetInterval 2 STATUS_SYNC_INTERVAL (Resubscribe 0),
    SendPresenceUpdate 0, SubscribeStatus 0]"
  by (simp add: sup_eval open_update_def)

text \<open>
  Claim C9, amended. In every state \<^term>\<open>w\<close> the running process can reach:
  \<^item> when the open handler of a socket resumes after the status subscription has been
    primed, it sends one heartbeat at once and starts an interval timer with the period
    \<^const>\<open>PRESENCE_UPDATE_INTERVAL\<close>, 60000 ms, whose every firing sends a heartbeat (and, if
    status viewing is on, the resubscription timer);
  \<^item> on a close event the handler cancels the timers held in \<^verbatim>\<open>presenceInterval\<close> and
    \<^verbatim>\<open>statusSyncInterval\<close> before it logs and schedules the restart or ends the process,
    and no interval timer is live afterwards;
  \<^item> if no open handler is suspended at line 260 when the close event is handled, then
    until the next open event no interval timer is live, and an interval timer that
    comes due does nothing: neither task fires.
\<close>

theorem maintenance_follows_connection:
  assumes "w = run cfg evs (startBot cfg env world_init)" and "exited w = None"
  shows "(s \<in> set (suspended w) \<longrightarrow>
            new_effects w (step cfg (InitDone s ok) w) =
              settled_effects cfg ok @ clear_effects (presenceInterval w) @
              [SendPresenceUpdate s, SetInterval (fresh w) PRESENCE_UPDATE_INTERVAL (Heartbeat s)] @
              sync_effects cfg s w \<and>
            (fresh w, PRESENCE_UPDATE_INTERVAL, Heartbeat s) \<in> set (intervals (step cfg (InitDone s ok) w)) \<and>
            new_effects (step cfg (InitDone s ok) w)
              (step cfg (IntervalFired (fresh w) b) (step cfg (InitDone s ok) w)) = [SendPresenceUpdate s] \<and>
            PRESENCE_UPDATE_INTERVAL = 60000) \<and>
         (s \<in> set (sockets w) \<and> connection u = Some Close \<longrightarrow>
            new_effects w (step cfg (ConnectionUpdate s u) w) =
              clear_effects (presenceInterval w) @ clear_effects (statusSyncInterval w) @
              (if shouldReconnect u
               then [Log ''Connection lost. Reconnecting...'', SetTimeoutStartBot (reconnect_delay cfg)]
               else [Log ''Logged out. Please delete auth_session and restart.'', Exit 0]) \<and>
            intervals (step cfg (ConnectionUpdate s u) w) = []) \<and>
         (s \<in> set (sockets w) \<and> connection u = Some Close \<and> suspended w = [] \<and>
          (\<forall>ev \<in> set evs'. \<not> is_open ev) \<longrightarrow>
            intervals (run cfg evs' (step cfg (ConnectionUpdate s u) w)) = [] \<and>
            step cfg (IntervalFired h b) (run cfg evs' (step cfg (ConnectionUpdate s u) w)) =
              run cfg evs' (step cfg (ConnectionUpdate s u) w))"
proof -
  have t: "tidy w" unfolding assms(1) by (intro tidy_run tidy_boot)
  note started = heartbeat_started [OF t assms(2)]
  note stopped = close_stops_maintenance [OF t assms(2)]
  have quiet: "intervals (run cfg evs' (step cfg (ConnectionUpdate s u) w)) = [] \<and>
      step cfg (IntervalFired h b) (run cfg evs' (step cfg (ConnectionUpdate s u) w)) =
        run cfg evs' (step cfg (ConnectionUpdate s u) w)"
    if reg: "s \<in> set (sockets w)" and cl: "connection u = Some Close" and idle: "suspended w = []"
      and later: "\<forall>ev \<in> set evs'. \<not> is_open ev"
  proof -
    have "intervals (step cfg (ConnectionUpdate s u) w) = []"
      and "suspended (step cfg (ConnectionUpdate s u) w) = []"
      using stopped(2,3) [OF reg cl] idle by simp_all
    from quiet_run [OF this later, of cfg]
    have "intervals (run cfg evs' (step cfg (ConnectionUpdate s u) w)) = []" by simp
    then show ?thesis by (simp add: no_interval_no_task)
  qed
  show ?thesis
  proof (intro conjI impI)
    assume "s \<in> set (suspended w)"
    then show "new_effects w (step cfg (InitDone s ok) w) =
              settled_effects cfg ok @ clear_effects (presenceInterval w) @
              [SendPresenceUpdate s, SetInterval (fresh w) PRESENCE_UPDATE_INTERVAL (Heartbeat s)] @
              sync_effects cfg s w"
      and "(fresh w, PRESENCE_UPDATE_INTERVAL, Heartbeat s) \<in> set (intervals (step cfg (InitDone s ok) w))"
      and "new_effects (step cfg (InitDone s ok) w)
              (step cfg (IntervalFired (fresh w) b) (step cfg (InitDone s ok) w)) = [SendPresenceUpdate s]"
      by (rule started)+
    show "PRESENCE_UPDATE_INTERVAL = 60000" by (simp add: PRESENCE_UPDATE_INTERVAL_def)
  next
    assume "s \<in> set (sockets w) \<and> connection u = Some Close"
    then show "new_effects w (step cfg (ConnectionUpdate s u) w) =
              clear_effects (presenceInterval w) @ clear_effects (statusSyncInterval w) @
              (if shouldReconnect u
               then [Log ''Connection lost. Reconnecting...'', SetTimeoutStartBot (reconnect_delay cfg)]
               else [Log ''Logged out. Please delete auth_session and restart.'', Exit 0])"
      and "intervals (step cfg (ConnectionUpdate s u) w) = []"
      by (simp_all add: stopped)
  next
    assume a: "s \<in> set (sockets w) \<and> connection u = Some Close \<and> suspended w = [] \<and>
          (\<forall>ev \<in> set evs'. \<not> is_open ev)"
    then have q: "intervals (run cfg evs' (step cfg (ConnectionUpdate s u) w)) = [] \<and>
      step cfg (IntervalFired h b) (run cfg evs' (step cfg (ConnectionUpdate s u) w)) =
        run cfg evs' (step cfg (ConnectionUpdate s u) w)"
      by (intro quiet) simp_all
    from q show "intervals (run cfg evs' (step cfg (ConnectionUpdate s u) w)) = []" by simp
    from q show "step cfg (IntervalFired h b) (run cfg evs' (step cfg (ConnectionUpdate s u) w)) =
        run cfg evs' (step cfg (ConnectionUpdate s u) w)" by simp
  qed
qed

text \<open>
  A session that opens, finishes its open handler, which starts the heartbeat timer with
  handle 1, and closes; the restart that follows creates the next socket, and the old
  heartbeat timer does nothing.
\<close>

theorem maintenance_follows_connection_witness:
  "(1, PRESENCE_UPDATE_INTERVAL, Heartbeat 0) \<in> set (intervals (step example_config (InitDone 0 True)
      (run example_config [ConnectionUpdate 0 open_update]
         (startBot example_config registered_env world_init)))) \<and>
   intervals (step example_config (ConnectionUpdate 0 close_update)
      (run example_config [ConnectionUpdate 0 open_update, InitDone 0 True]
         (startBot example_config registered_env world_init))) = [] \<and>
   step example_config (IntervalFired 1 True)
     (run example_config [RestartFired registered_env]
       (step example_config (ConnectionUpdate 0 close_update)
         (run example_config [ConnectionUpdate 0 open_update, InitDone 0 True]
            (startBot example_config registered_env world_init)))) =
     run example_config [RestartFired registered_env]
       (step example_config (ConnectionUpdate 0 close_update)
         (run example_config [ConnectionUpdate 0 open_update, InitDone 0 True]
            (startBot example_config registered_env world_init)))"
proof -
  let ?v = "run example_config [ConnectionUpdate 0 open_update]
         (startBot example_config registered_env world_init)"
  let ?w = "run example_config [ConnectionUpdate 0 open_update, InitDone 0 True]
         (startBot example_config registered_env world_init)"
  have alive0: "exited ?v = None" by (simp add: sup_eval open_update_def)
  have waiting: "0 \<in> set (suspended ?v)" by (simp add: sup_eval open_update_def)
  have next_handle: "fresh ?v = 1" by (simp add: sup_eval open_update_def)
  have alive: "exited ?w = None" by (simp add: sup_eval open_update_def)
  have reg: "0 \<in> set (sockets ?w)" by (simp add: sup_eval open_update_def)
  have cl: "connection close_update = Some Close" by (simp add: close_update_def)
  have idle: "suspended ?w = []" by (simp add: sup_eval open_update_def)
  have later: "\<forall>ev \<in> set [RestartFired registered_env]. \<not> is_open ev" by simp
  from maintenance_follows_connection [OF refl alive0, of 0 True, THEN conjunct1, THEN mp, OF waiting,
      THEN conjunct2, THEN conjunct1]
  have 0: "(1, PRESENCE_UPDATE_INTERVAL, Heartbeat 0) \<in> set (intervals (step example_config (InitDone 0 True) ?v))"
    unfolding next_handle .
  note inst = maintenance_follows_connection [OF refl alive, of 0 _ _ close_update]
  from inst [THEN conjunct2, THEN conjunct1, THEN mp, OF conjI [OF reg cl], THEN conjunct2]
  have 1: "intervals (step example_config (ConnectionUpdate 0 close_update) ?w) = []" .
  from inst [THEN conjunct2, THEN conjunct2, THEN mp,
      OF conjI [OF reg conjI [OF cl conjI [OF idle later]]], THEN conjunct2, of 1 True]
  have 2: "step example_config (IntervalFired 1 True)
     (run example_config [RestartFired registered_env]
       (step example_config (ConnectionUpdate 0 close_update) ?w)) =
     run example_config [RestartFired registered_env]
       (step example_config (ConnectionUpdate 0 close_update) ?w)" .
  from 0 1 2 show ?thesis by (intro conjI)
qed

section \<open>Properties of the message handler\<close>

subsection \<open>Auxiliary facts\<close>

lemma handleStatusView_cache:
  "snd (handleStatusView cfg ok sock now m c) =
     snd (observeOnce MAX_VIEWED_STATUS_SIZE STATUS_CLEANUP_INTERVAL now (key_id (key m)) c)"
  by (simp add: handleStatusView_def Let_def split: prod.splits bool.splits)

lemma handleStatusView_reads:
  assumes "key_id (key m) \<notin> set (viewedStatus c)" and "truthy_string (participant (key m))"
  shows "hd (fst (handleStatusView cfg ok sock now m c)) = ReadMessages sock (key m)"
  using assms
  by (simp add: handleStatusView_def observeOnce_def set_has_def Let_def)

lemma handleAntiDelete_alerts:
  assumes "message m = Some body" and "protocolMessage body = Some pm" and "pm_type pm = Some 0"
      and "pm_key pm = Some k" and "remoteJid k = Some j" and "j \<noteq> []" and "j \<noteq> ''status@broadcast''"
  shows "hd (handleAntiDelete cfg ok sock m) =
     SendAlert sock ((case ownerNumber cfg of None \<Rightarrow> ''undefined'' | Some n \<Rightarrow> n) @ ''@s.whatsapp.net'') j"
  using assms
  by (simp add: handleAntiDelete_def truthy_string_def Let_def)

lemma handleAntiDelete_nonempty:
  assumes "message m = Some body" and "protocolMessage body = Some pm" and "pm_type pm = Some 0"
      and "pm_key pm = Some k" and "remoteJid k = Some j" and "j \<noteq> []" and "j \<noteq> ''status@broadcast''"
  shows "handleAntiDelete cfg ok sock m \<noteq> []"
  using assms
  by (simp add: handleAntiDelete_def truthy_string_def Let_def)

subsection \<open>The first message of a batch\<close>

text \<open>
  Claim C10. For every \<^verbatim>\<open>messages.upsert\<close> batch, \<^verbatim>\<open>handleIncomingMessages\<close> does exactly
  what it does for the batch that holds the first message alone, in what it sends and
  logs and in the cache: the further messages are ignored without a trace. An empty
  batch does nothing. The first message is processed:
  \<^item> status view: if it has content and is a status broadcast with a sender, its id is
    not in the cache and status viewing is on, the first thing the handler does is to
    mark the status as read; the id is in the cache afterwards, and its deletion is due
    \<^const>\<open>STATUS_CLEANUP_INTERVAL\<close> later;
  \<^item> anti-delete: if it revokes a message of a chat (not a status) and anti-delete is on,
    the handler sends the alert about that chat to the owner.
\<close>

theorem only_first_message_processed:
  "handleIncomingMessages cfg ok sock now (m # others) c = handleIncomingMessages cfg ok sock now [m] c \<and>
   handleIncomingMessages cfg ok sock now [] c = ([], c) \<and>
   (message m \<noteq> None \<and> remoteJid (key m) = Some ''status@broadcast'' \<and> autoViewStatus cfg \<and>
    key_id (key m) \<notin> set (viewedStatus c) \<and> truthy_string (participant (key m)) \<longrightarrow>
      hd (fst (handleIncomingMessages cfg ok sock now (m # others) c)) = ReadMessages sock (key m) \<and>
      key_id (key m) \<in> set (viewedStatus (snd (handleIncomingMessages cfg ok sock now (m # others) c))) \<and>
      (now + STATUS_CLEANUP_INTERVAL, key_id (key m))
        \<in> set (expiry (snd (handleIncomingMessages cfg ok sock now (m # others) c)))) \<and>
   (message m = Some body \<and> protocolMessage body = Some pm \<and> pm_type pm = Some 0 \<and>
    pm_key pm = Some k \<and> remoteJid k = Some j \<and> j \<noteq> [] \<and> j \<noteq> ''status@broadcast'' \<and>
    antiDelete cfg \<longrightarrow>
      SendAlert sock ((case ownerNumber cfg of None \<Rightarrow> ''undefined'' | Some n \<Rightarrow> n) @ ''@s.whatsapp.net'') j
        \<in> set (fst (handleIncomingMessages cfg ok sock now (m # others) c)))"
proof -
  have batch: "handleIncomingMessages cfg ok sock now (m # others) c =
      handleIncomingMessages cfg ok sock now [m] c"
    by (simp add: handleIncomingMessages_def)
  have empty: "handleIncomingMessages cfg ok sock now [] c = ([], c)"
    by (simp add: handleIncomingMessages_def)
  have view: "hd (fst (handleIncomingMessages cfg ok sock now (m # others) c)) = ReadMessages sock (key m) \<and>
      key_id (key m) \<in> set (viewedStatus (snd (handleIncomingMessages cfg ok sock now (m # others) c))) \<and>
      (now + STATUS_CLEANUP_INTERVAL, key_id (key m))
        \<in> set (expiry (snd (handleIncomingMessages cfg ok sock now (m # others) c)))"
    if "message m \<noteq> None" and "remoteJid (key m) = Some ''status@broadcast''" and "autoViewStatus cfg"
      and new: "key_id (key m) \<notin> set (viewedStatus c)" and sender: "truthy_string (participant (key m))"
  proof -
    obtain viewed c' where v: "handleStatusView cfg ok sock now m c = (viewed, c')" by fastforce
    have res: "handleIncomingMessages cfg ok sock now (m # others) c =
        (viewed @ (if antiDelete cfg then handleAntiDelete cfg ok sock m else []), c')"
      using that(1-3) v by (auto simp: handleIncomingMessages_def)
    have "viewed \<noteq> []"
      using v new sender
      by (auto simp: handleStatusView_def observeOnce_def set_has_def Let_def split: if_splits)
    moreover have "hd viewed = ReadMessages sock (key m)"
      using handleStatusView_reads [OF new sender, of cfg ok sock now] v by simp
    moreover have "c' = snd (observeOnce MAX_VIEWED_STATUS_SIZE STATUS_CLEANUP_INTERVAL now (key_id (key m)) c)"
      using handleStatusView_cache [of cfg ok sock now m c] v by simp
    moreover have "0 < MAX_VIEWED_STATUS_SIZE" by (simp add: MAX_VIEWED_STATUS_SIZE_def)
    ultimately show ?thesis
      using observeOnce_records [OF _ new, where cap = MAX_VIEWED_STATUS_SIZE
          and ttl = STATUS_CLEANUP_INTERVAL and now = now]
      by (simp add: res)
  qed
  have alert: "SendAlert sock ((case ownerNumber cfg of None \<Rightarrow> ''undefined'' | Some n \<Rightarrow> n) @ ''@s.whatsapp.net'') j
        \<in> set (fst (handleIncomingMessages cfg ok sock now (m # others) c))"
    if "message m = Some body" and "protocolMessage body = Some pm" and "pm_type pm = Some 0"
      and "pm_key pm = Some k" and "remoteJid k = Some j" and "j \<noteq> []" and "j \<noteq> ''status@broadcast''"
      and "antiDelete cfg"
  proof -
    have "handleAntiDelete cfg ok sock m \<noteq> []"
      using that(1-7) by (rule handleAntiDelete_nonempty)
    moreover have "hd (handleAntiDelete cfg ok sock m) =
        SendAlert sock ((case ownerNumber cfg of None \<Rightarrow> ''undefined'' | Some n \<Rightarrow> n) @ ''@s.whatsapp.net'') j"
      using that(1-7) by (rule handleAntiDelete_alerts)
    ultimately have "SendAlert sock ((case ownerNumber cfg of None \<Rightarrow> ''undefined'' | Some n \<Rightarrow> n) @ ''@s.whatsapp.net'') j
        \<in> set (handleAntiDelete cfg ok sock m)"
      by (metis hd_in_set)
    then show ?thesis
      using that(1,8) by (simp add: handleIncomingMessages_def split: prod.splits)
  qed
  from batch empty view alert show ?thesis by blast
qed

text \<open>
  Two statuses in one batch, of which the first is marked as read and recorded; and a
  revocation followed by a status, for which the alert is sent.
\<close>

theorem only_first_message_processed_witness:
  "hd (fst (handleIncomingMessages example_config (\<lambda>e. True) 0 0 [status_msg ''s1'', status_msg ''s2''] dedup_init))
     = ReadMessages 0 (key (status_msg ''s1'')) \<and>
   ''s1'' \<in> set (viewedStatus (snd (handleIncomingMessages example_config (\<lambda>e. True) 0 0
       [status_msg ''s1'', status_msg ''s2''] dedup_init))) \<and>
   (0 + STATUS_CLEANUP_INTERVAL, ''s1'') \<in> set (expiry (snd (handleIncomingMessages example_config (\<lambda>e. True) 0 0
       [status_msg ''s1'', status_msg ''s2''] dedup_init))) \<and>
   SendAlert 0 ''254700000000@s.whatsapp.net'' ''254722222222@s.whatsapp.net''
     \<in> set (fst (handleIncomingMessages example_config (\<lambda>e. True) 0 0 [revoke_msg, status_msg ''s2''] dedup_init))"
proof -
  have h: "message (status_msg ''s1'') \<noteq> None \<and> remoteJid (key (status_msg ''s1'')) = Some ''status@broadcast'' \<and>
      autoViewStatus example_config \<and> key_id (key (status_msg ''s1'')) \<notin> set (viewedStatus dedup_init) \<and>
      truthy_string (participant (key (status_msg ''s1'')))"
    by (simp add: status_msg_def example_config_def dedup_init_def truthy_string_def)
  have g: "message revoke_msg = Some \<lparr>protocolMessage = Some \<lparr>pm_type = Some 0,
         pm_key = Some \<lparr>key_id = ''m7'', remoteJid = Some ''254722222222@s.whatsapp.net'',
           participant = None\<rparr>\<rparr>\<rparr> \<and>
       protocolMessage \<lparr>protocolMessage = Some \<lparr>pm_type = Some 0,
         pm_key = Some \<lparr>key_id = ''m7'', remoteJid = Some ''254722222222@s.whatsapp.net'',
           participant = None\<rparr>\<rparr>\<rparr> = Some \<lparr>pm_type = Some 0,
         pm_key = Some \<lparr>key_id = ''m7'', remoteJid = Some ''254722222222@s.whatsapp.net'',
           participant = None\<rparr>\<rparr> \<and>
       pm_type \<lparr>pm_type = Some 0,
         pm_key = Some \<lparr>key_id = ''m7'', remoteJid = Some ''254722222222@s.whatsapp.net'',
           participant = None\<rparr>\<rparr> = Some 0 \<and>
       pm_key \<lparr>pm_type = Some 0,
         pm_key = Some \<lparr>key_id = ''m7'', remoteJid = Some ''254722222222@s.whatsapp.net'',
           participant = None\<rparr>\<rparr> = Some \<lparr>key_id = ''m7'', remoteJid = Some ''254722222222@s.whatsapp.net'',
           participant = None\<rparr> \<and>
       remoteJid \<lparr>key_id = ''m7'', remoteJid = Some ''254722222222@s.whatsapp.net'',
           participant = None\<rparr> = Some ''254722222222@s.whatsapp.net'' \<and>
       ''254722222222@s.whatsapp.net'' \<noteq> [] \<and> ''254722222222@s.whatsapp.net'' \<noteq> ''status@broadcast'' \<and>
       antiDelete example_config"
    by (simp add: revoke_msg_def example_config_def)
  have owner: "(case ownerNumber example_config of None \<Rightarrow> ''undefined'' | Some n \<Rightarrow> n) @ ''@s.whatsapp.net''
      = ''254700000000@s.whatsapp.net''"
    by (simp add: example_config_def)
  note view = only_first_message_processed [of example_config "\<lambda>e. True" 0 0 "status_msg ''s1''"
      "[status_msg ''s2'']" dedup_init, THEN conjunct2, THEN conjunct2, THEN conjunct1, THEN mp, OF h]
  note alert = only_first_message_processed [of example_config "\<lambda>e. True" 0 0 revoke_msg
      "[status_msg ''s2'']" dedup_init, THEN conjunct2, THEN conjunct2, THEN conjunct2, THEN mp, OF g]
  have id: "key_id (key (status_msg ''s1'')) = ''s1''" by (simp add: status_msg_def)
  from view [unfolded id] alert [unfolded owner] show ?thesis by simp
qed

text \<open>
  Two statuses in one batch, in full: the first is viewed and recorded, the second is
  neither.
\<close>

lemma batch_example:
  "handleIncomingMessages example_config (\<lambda>e. True) 0 0 [status_msg ''s1'', status_msg ''s2''] dedup_init =
     ([ReadMessages 0 (key (status_msg ''s1'')), Log ''Viewed Status: 254711111111''],
      \<lparr>viewedStatus = [''s1''], expiry = [(STATUS_CLEANUP_INTERVAL, ''s1'')]\<rparr>)"
  by (simp add: handleIncomingMessages_def handleStatusView_def handleAntiDelete_def status_msg_def
      example_config_def ev_simps truthy_string_def extractUsername_def MAX_VIEWED_STATUS_SIZE_def)

end
